theory Spec2Isabelle
  imports Main
begin

section \<open>Strings of the scanner and of the identifier builder\<close>

text \<open>
  The program of \<^verbatim>\<open>src/main.py\<close> reads a GEDCOM file line by line, keeps the name line
  and the birth-date line of the current person, and downloads each photo of a
  \<^verbatim>\<open>2 FILE\<close> line under a file name derived from the two.

  Strings are lists of characters, and a character of the model is a code point from
  U+0000 to U+00FF: the classes \<^verbatim>\<open>\d\<close> and \<^verbatim>\<open>\w\<close>, white space and \<^verbatim>\<open>lower()\<close> are
  written out for these code points as Python has them. A text with a code point beyond
  U+00FF has no value in the model.
\<close>

datatype py_error = ValueError | OSError | UnicodeDecodeError

definition is_digit :: "char \<Rightarrow> bool" where
  \<comment> \<open>the class \<^verbatim>\<open>\d\<close>\<close>
  "is_digit c = (c \<in> set ''0123456789'')"

definition latin1_word :: string where
  \<comment> \<open>the code points from U+0080 to U+00FF that are letters or numbers\<close>
  "latin1_word =
     [CHR 0xAA, CHR 0xB2, CHR 0xB3, CHR 0xB5, CHR 0xB9, CHR 0xBA, CHR 0xBC, CHR 0xBD,
      CHR 0xBE, CHR 0xC0, CHR 0xC1, CHR 0xC2, CHR 0xC3, CHR 0xC4, CHR 0xC5, CHR 0xC6,
      CHR 0xC7, CHR 0xC8, CHR 0xC9, CHR 0xCA, CHR 0xCB, CHR 0xCC, CHR 0xCD, CHR 0xCE,
      CHR 0xCF, CHR 0xD0, CHR 0xD1, CHR 0xD2, CHR 0xD3, CHR 0xD4, CHR 0xD5, CHR 0xD6,
      CHR 0xD8, CHR 0xD9, CHR 0xDA, CHR 0xDB, CHR 0xDC, CHR 0xDD, CHR 0xDE, CHR 0xDF,
      CHR 0xE0, CHR 0xE1, CHR 0xE2, CHR 0xE3, CHR 0xE4, CHR 0xE5, CHR 0xE6, CHR 0xE7,
      CHR 0xE8, CHR 0xE9, CHR 0xEA, CHR 0xEB, CHR 0xEC, CHR 0xED, CHR 0xEE, CHR 0xEF,
      CHR 0xF0, CHR 0xF1, CHR 0xF2, CHR 0xF3, CHR 0xF4, CHR 0xF5, CHR 0xF6, CHR 0xF8,
      CHR 0xF9, CHR 0xFA, CHR 0xFB, CHR 0xFC, CHR 0xFD, CHR 0xFE, CHR 0xFF]"

definition is_word :: "char \<Rightarrow> bool" where
  \<comment> \<open>the class \<^verbatim>\<open>\w\<close>: the letters, the numbers and the underscore\<close>
  "is_word c =
     (c \<in> set (''abcdefghijklmnopqrstuvwxyzABCDEFGHIJKLMNOPQRSTUVWXYZ0123456789_''
                @ latin1_word))"

definition is_space :: "char \<Rightarrow> bool" where
  \<comment> \<open>\<^verbatim>\<open>str.isspace\<close>: tab, line feed, vertical tab, form feed, carriage return, the
      four separators 0x1C to 0x1F, the blank, the next-line character U+0085 and the
      no-break space U+00A0\<close>
  "is_space c =
     (c \<in> set [CHR 0x09, CHR 0x0A, CHR 0x0B, CHR 0x0C, CHR 0x0D,
                CHR 0x1C, CHR 0x1D, CHR 0x1E, CHR 0x1F, CHR '' '', CHR 0x85, CHR 0xA0])"

definition is_id_char :: "char \<Rightarrow> bool" where
  \<comment> \<open>the characters that \<^verbatim>\<open>re.sub(r'[^a-z0-9_]', '', ...)\<close> keeps\<close>
  "is_id_char c = (c \<in> set ''abcdefghijklmnopqrstuvwxyz0123456789_'')"

definition latin1_upper :: string where
  \<comment> \<open>the capital letters from U+00C0 to U+00DE\<close>
  "latin1_upper =
     [CHR 0xC0, CHR 0xC1, CHR 0xC2, CHR 0xC3, CHR 0xC4, CHR 0xC5, CHR 0xC6, CHR 0xC7,
      CHR 0xC8, CHR 0xC9, CHR 0xCA, CHR 0xCB, CHR 0xCC, CHR 0xCD, CHR 0xCE, CHR 0xCF,
      CHR 0xD0, CHR 0xD1, CHR 0xD2, CHR 0xD3, CHR 0xD4, CHR 0xD5, CHR 0xD6, CHR 0xD8,
      CHR 0xD9, CHR 0xDA, CHR 0xDB, CHR 0xDC, CHR 0xDD, CHR 0xDE]"

definition latin1_lower :: string where
  \<comment> \<open>their small letters, from U+00E0 to U+00FE, in the same order\<close>
  "latin1_lower =
     [CHR 0xE0, CHR 0xE1, CHR 0xE2, CHR 0xE3, CHR 0xE4, CHR 0xE5, CHR 0xE6, CHR 0xE7,
      CHR 0xE8, CHR 0xE9, CHR 0xEA, CHR 0xEB, CHR 0xEC, CHR 0xED, CHR 0xEE, CHR 0xEF,
      CHR 0xF0, CHR 0xF1, CHR 0xF2, CHR 0xF3, CHR 0xF4, CHR 0xF5, CHR 0xF6, CHR 0xF8,
      CHR 0xF9, CHR 0xFA, CHR 0xFB, CHR 0xFC, CHR 0xFD, CHR 0xFE]"

definition lower_char :: "char \<Rightarrow> char" where
  "lower_char c =
     (case map_of (zip (''ABCDEFGHIJKLMNOPQRSTUVWXYZ'' @ latin1_upper)
                       (''abcdefghijklmnopqrstuvwxyz'' @ latin1_lower)) c of
        Some l \<Rightarrow> l
      | None \<Rightarrow> c)"

definition py_lower :: "string \<Rightarrow> string" where
  "py_lower s = map lower_char s"

definition py_strip :: "string \<Rightarrow> string" where
  \<comment> \<open>\<^verbatim>\<open>s.strip()\<close>\<close>
  "py_strip s = rev (dropWhile is_space (rev (dropWhile is_space s)))"

definition startswith :: "string \<Rightarrow> string \<Rightarrow> bool" where
  \<comment> \<open>\<^verbatim>\<open>s.startswith(p)\<close>\<close>
  "startswith s p = (take (length p) s = p)"

fun py_in :: "string \<Rightarrow> string \<Rightarrow> bool" where
  \<comment> \<open>\<^verbatim>\<open>p in s\<close>\<close>
  "py_in p [] = (p = [])"
| "py_in p (c # cs) = (startswith (c # cs) p \<or> py_in p cs)"

fun split_from :: "string \<Rightarrow> string \<Rightarrow> string list" where
  \<comment> \<open>the scan of \<^verbatim>\<open>s.split()\<close>; the first argument is the current part, reversed\<close>
  "split_from cur [] = (if cur = [] then [] else [rev cur])"
| "split_from cur (c # cs) =
     (if is_space c then (if cur = [] then split_from [] cs else rev cur # split_from [] cs)
      else split_from (c # cur) cs)"

definition py_split :: "string \<Rightarrow> string list" where
  \<comment> \<open>\<^verbatim>\<open>s.split()\<close>: the maximal runs without white space\<close>
  "py_split s = split_from [] s"

fun py_join :: "string \<Rightarrow> string list \<Rightarrow> string" where
  \<comment> \<open>\<^verbatim>\<open>sep.join(parts)\<close>\<close>
  "py_join sep [] = []"
| "py_join sep [x] = x"
| "py_join sep (x # y # ys) = x @ sep @ py_join sep (y # ys)"

subsection \<open>Numbers\<close>

definition digit_val :: "char \<Rightarrow> nat" where
  "digit_val c = (case map_of (zip ''0123456789'' [0, 1, 2, 3, 4, 5, 6, 7, 8, 9]) c of
                    Some v \<Rightarrow> v | None \<Rightarrow> 0)"

definition digits_val :: "string \<Rightarrow> nat" where
  \<comment> \<open>the number that a run of decimal digits writes\<close>
  "digits_val s = foldl (\<lambda>a c. 10 * a + digit_val c) 0 s"

definition int_max_str_digits :: nat where
  \<comment> \<open>the greatest number of digits that \<^verbatim>\<open>int()\<close> converts, as the interpreter
      sets it by default (\<^verbatim>\<open>sys.get_int_max_str_digits()\<close>, since Python 3.11)\<close>
  "int_max_str_digits = 4300"

definition py_int :: "string \<Rightarrow> py_error + nat" where
  \<comment> \<open>\<^verbatim>\<open>int(s)\<close> on the strings the program passes: a non-empty run of decimal digits
      gives its value, and raises \<^verbatim>\<open>ValueError\<close> when it has more digits than the limit,
      leading zeros counted. Line 60 passes a group of \<^verbatim>\<open>\d+\<close> and nothing else; on
      any other string the model raises as well\<close>
  "py_int s =
     (if s \<noteq> [] \<and> list_all is_digit s \<and> length s \<le> int_max_str_digits
      then Inr (digits_val s)
      else Inl ValueError)"

definition digit_char :: "nat \<Rightarrow> char" where
  "digit_char n = ''0123456789'' ! (n mod 10)"

fun str_nat :: "nat \<Rightarrow> string" where
  \<comment> \<open>the decimal digits of a number, \<^verbatim>\<open>str(n)\<close>\<close>
  "str_nat n = (if n < 10 then [digit_char n] else str_nat (n div 10) @ [digit_char n])"

definition fmt_02d :: "nat \<Rightarrow> string" where
  \<comment> \<open>the format \<^verbatim>\<open>{n:02d}\<close>: at least two digits, zero-padded on the left\<close>
  "fmt_02d n = (if n < 10 then CHR ''0'' # str_nat n else str_nat n)"

subsection \<open>Month names\<close>

definition month_abbr :: "string list" where
  "month_abbr = [''jan'', ''feb'', ''mar'', ''apr'', ''may'', ''jun'',
                 ''jul'', ''aug'', ''sep'', ''oct'', ''nov'', ''dec'']"

fun index_of :: "'a \<Rightarrow> 'a list \<Rightarrow> nat option" where
  "index_of x [] = None"
| "index_of x (y # ys) = (if x = y then Some 0 else map_option Suc (index_of x ys))"

definition strptime_b_month :: "string \<Rightarrow> py_error + nat" where
  \<comment> \<open>\<^verbatim>\<open>datetime.strptime(month, '%b').month\<close> with the English month names: the whole
      string is one of the twelve abbreviations, in any letter case; anything else raises
      \<^verbatim>\<open>ValueError\<close>\<close>
  "strptime_b_month m =
     (case index_of (py_lower m) month_abbr of
        Some i \<Rightarrow> Inr (Suc i)
      | None \<Rightarrow> Inl ValueError)"

section \<open>The identifier builder\<close>

fun match_surname :: "string \<Rightarrow> string option" where
  \<comment> \<open>\<^verbatim>\<open>(.*?)/\<close> at the start of the string: the group is the text before the first
      slash; the dot matches no line feed\<close>
  "match_surname [] = None"
| "match_surname (c # cs) =
     (if c = CHR ''/'' then Some []
      else if c = CHR 0x0A then None
      else map_option (\<lambda>s. c # s) (match_surname cs))"

fun match_given :: "string \<Rightarrow> (string \<times> string) option" where
  \<comment> \<open>\<^verbatim>\<open>(.*?) /(.*?)/\<close> at the start of the string: the first group is the shortest
      text after which the rest of the pattern matches\<close>
  "match_given [] = None"
| "match_given (c # cs) =
     (case (if c = CHR '' '' \<and> startswith cs ''/'' then match_surname (drop 1 cs) else None) of
        Some sur \<Rightarrow> Some ([], sur)
      | None \<Rightarrow>
          if c = CHR 0x0A then None
          else map_option (\<lambda>(g, sur). (c # g, sur)) (match_given cs))"

definition name_match :: "string \<Rightarrow> (string \<times> string) option" where
  \<comment> \<open>\<^verbatim>\<open>re.match(r'1 NAME (.*?) /(.*?)/', name)\<close>: groups 1 and 2\<close>
  "name_match name =
     (if startswith name ''1 NAME '' then match_given (drop 7 name) else None)"

definition date_match :: "string \<Rightarrow> (string \<times> string \<times> string) option" where
  \<comment> \<open>\<^verbatim>\<open>re.match(r'2 DATE (\d+) (\w+) (\d+)', birth_date)\<close>: groups 1, 2 and 3. A blank is
      neither a digit nor a word character, so each greedy group is the maximal run\<close>
  "date_match birth_date =
     (if \<not> startswith birth_date ''2 DATE '' then None
      else
        let r0 = drop 7 birth_date;
            d = takeWhile is_digit r0;
            r1 = dropWhile is_digit r0
        in if d = [] \<or> \<not> startswith r1 '' '' then None
           else
             let r2 = drop 1 r1;
                 m = takeWhile is_word r2;
                 r3 = dropWhile is_word r2
             in if m = [] \<or> \<not> startswith r3 '' '' then None
                else
                  let y = takeWhile is_digit (drop 1 r3)
                  in if y = [] then None else Some (d, m, y))"

definition name_part_of :: "string \<Rightarrow> string \<Rightarrow> string" where
  \<comment> \<open>lines 75 to 80: the parts of the given name, then the surname, joined by
      underscores, lowercased, and every other character deleted\<close>
  "name_part_of given_name surname =
     filter is_id_char
       (py_lower (py_join ''_'' (map py_strip (py_split given_name) @ [surname])))"

definition create_person_id :: "string \<Rightarrow> string \<Rightarrow> py_error + string option" where
  \<comment> \<open>\<^verbatim>\<open>Inl\<close> is an exception that leaves the function, \<^verbatim>\<open>Inr None\<close> the value
      \<^verbatim>\<open>None\<close>. Line 60 converts the day outside the \<^verbatim>\<open>try\<close> of lines 65 to 68, so
      the exception of \<^verbatim>\<open>int()\<close> leaves the function\<close>
  "create_person_id name birth_date =
     (case name_match name of
        None \<Rightarrow> Inr None
      | Some (g1, g2) \<Rightarrow>
          let given_name = py_strip g1; surname = py_strip g2 in
          (case date_match birth_date of
             None \<Rightarrow> Inr None
           | Some (d, month, year) \<Rightarrow>
               (case py_int d of
                  Inl e \<Rightarrow> Inl e
                | Inr day \<Rightarrow>
                    (case strptime_b_month month of
                       Inl e \<Rightarrow> if e = ValueError then Inr None else Inl e
                     | Inr month_num \<Rightarrow>
                         let date_part = year @ ''-'' @ fmt_02d month_num @ ''-'' @ fmt_02d day
                         in Inr (Some (date_part @ ''_'' @ name_part_of given_name surname))))))"

section \<open>The photo fetcher\<close>

text \<open>
  The network and the disk are the environment of the program. An environment is a
  function \<open>fetch\<close> that, from the state of the world, a URL and a target path, gives
  the outcome of the request and of the write, and the next state of the world. The
  outcome is \<open>None\<close> when nothing is raised, and \<open>Some msg\<close> when an exception is
  raised, \<open>msg\<close> being \<^verbatim>\<open>str(e)\<close>.

  What the program does is recorded as a list of events: a line printed, or a download
  attempted, with its URL, its target path and its result. A function that an exception
  leaves gives the exception with the events that came before it and the state of the
  world then.
\<close>

datatype event = Printed string | Download string string bool

type_synonym 'w raised = "py_error \<times> event list \<times> 'w"

type_synonym 'w fetcher = "'w \<Rightarrow> string \<Rightarrow> string \<Rightarrow> string option \<times> 'w"

definition download_photo ::
  "'w fetcher \<Rightarrow> 'w \<Rightarrow> string \<Rightarrow> string \<Rightarrow> bool \<times> event list \<times> 'w" where
  \<comment> \<open>the result, the events, the next state of the world\<close>
  "download_photo fetch w url filename =
     (case fetch w url filename of
        (None, w') \<Rightarrow> (True, [Download url filename True], w')
      | (Some e, w') \<Rightarrow>
          (False,
           [Download url filename False, Printed (''Error downloading '' @ url @ '': '' @ e)],
           w'))"

fun attempts :: "event list \<Rightarrow> (string \<times> string) list" where
  \<comment> \<open>the downloads attempted, in order: the URL and the target path of each\<close>
  "attempts [] = []"
| "attempts (Printed s # evs) = attempts evs"
| "attempts (Download url filename ok # evs) = (url, filename) # attempts evs"

section \<open>The record scanner\<close>

text \<open>
  The scanner keeps four variables, here the fields of a record, and reads the file
  line by line. The file system is an argument of the model: whether the file of the
  command line exists and is readable, the exception that creating the directory
  \<^verbatim>\<open>photos\<close> raises, if any, the lines that the iteration over the file yields, and
  the exception that ends the iteration, if any (the file cannot be opened, or a part
  of it is not UTF-8).
\<close>

record file_system =
  file_exists :: bool
  file_readable :: bool
  mkdir_error :: "py_error option"
  file_lines :: "string list"
  read_error :: "py_error option"

record person_context =
  current_person :: "string option"
  current_name :: "string option"
  current_birth_date :: "string option"
  photo_count :: nat

definition initial_context :: person_context where
  \<comment> \<open>lines 106 to 109\<close>
  "initial_context =
     \<lparr>current_person = None, current_name = None, current_birth_date = None,
      photo_count = 0\<rparr>"

definition is_boundary :: "string \<Rightarrow> bool" where
  "is_boundary line = (startswith line ''0 @I'' \<and> py_in '' INDI'' line)"

definition photos_dir :: string where
  \<comment> \<open>\<^verbatim>\<open>Path("./photos")\<close>, which is the directory \<^verbatim>\<open>photos\<close> under the working
      directory and is printed so\<close>
  "photos_dir = ''photos''"

definition photo_filename :: "string \<Rightarrow> nat \<Rightarrow> string" where
  \<comment> \<open>\<^verbatim>\<open>photos_dir / f"{person_id}_{photo_count:02d}.jpg"\<close>\<close>
  "photo_filename person_id n =
     photos_dir @ ''/'' @ person_id @ ''_'' @ fmt_02d n @ ''.jpg''"

definition process_line ::
  "'w fetcher \<Rightarrow> person_context \<Rightarrow> 'w \<Rightarrow> string
     \<Rightarrow> 'w raised + (person_context \<times> event list \<times> 'w)" where
  \<comment> \<open>the body of the loop, lines 113 to 142, on one line of the file; a stored line
      that is \<^verbatim>\<open>None\<close> or empty counts as false in the test of line 135\<close>
  "process_line fetch st w raw =
     (let line = py_strip raw in
      if is_boundary line then
        Inr (st\<lparr>current_person := Some line, current_name := None,
                 current_birth_date := None, photo_count := 0\<rparr>, [], w)
      else if startswith line ''1 NAME '' then
        Inr (st\<lparr>current_name := Some line\<rparr>, [], w)
      else if startswith line ''2 DATE '' then
        Inr (st\<lparr>current_birth_date := Some line\<rparr>, [], w)
      else if startswith line ''2 FILE '' then
        (case (current_name st, current_birth_date st) of
           (Some name, Some birth_date) \<Rightarrow>
             if name = [] \<or> birth_date = [] then Inr (st, [], w)
             else
               (case create_person_id name birth_date of
                  Inl e \<Rightarrow> Inl (e, [], w)
                | Inr None \<Rightarrow> Inr (st, [], w)
                | Inr (Some person_id) \<Rightarrow>
                    if person_id = [] then Inr (st, [], w)
                    else
                      let url = drop 7 line;
                          n = photo_count st + 1;
                          filename = photo_filename person_id n;
                          msg = Printed (''Downloading '' @ url @ '' to '' @ filename)
                      in (case download_photo fetch w url filename of
                            (ok, evs, w') \<Rightarrow> Inr (st\<lparr>photo_count := n\<rparr>, msg # evs, w')))
         | _ \<Rightarrow> Inr (st, [], w))
      else Inr (st, [], w))"

fun process_lines ::
  "'w fetcher \<Rightarrow> person_context \<Rightarrow> 'w \<Rightarrow> string list
     \<Rightarrow> 'w raised + (person_context \<times> event list \<times> 'w)" where
  \<comment> \<open>the loop over the lines of the file; an exception ends it\<close>
  "process_lines fetch st w [] = Inr (st, [], w)"
| "process_lines fetch st w (l # ls) =
     (case process_line fetch st w l of
        Inl r \<Rightarrow> Inl r
      | Inr (st1, evs1, w1) \<Rightarrow>
          (case process_lines fetch st1 w1 ls of
             Inl (e, evs2, w2) \<Rightarrow> Inl (e, evs1 @ evs2, w2)
           | Inr (st2, evs2, w2) \<Rightarrow> Inr (st2, evs1 @ evs2, w2)))"

definition process_gedcom_file ::
  "'w fetcher \<Rightarrow> 'w \<Rightarrow> file_system
     \<Rightarrow> 'w raised + (person_context \<times> event list \<times> 'w)" where
  \<comment> \<open>lines 103 to 142: the directory, then the loop over the lines that are read, which
      the exception of the reading ends after them\<close>
  "process_gedcom_file fetch w fs =
     (case mkdir_error fs of
        Some e \<Rightarrow> Inl (e, [], w)
      | None \<Rightarrow>
          (case process_lines fetch initial_context w (file_lines fs) of
             Inl r \<Rightarrow> Inl r
           | Inr (st, evs, w') \<Rightarrow>
               (case read_error fs of
                  Some e \<Rightarrow> Inl (e, evs, w')
                | None \<Rightarrow> Inr (st, evs, w'))))"

section \<open>The entry point\<close>

text \<open>
  The parsing of the command line is not modelled. The value that \<open>main\<close> returns
  is the exit code of the process; an exception that leaves \<open>main\<close> ends the
  process with a traceback and the exit code 1.
\<close>

definition validate_file :: "string \<Rightarrow> file_system \<Rightarrow> bool \<times> event list" where
  "validate_file file_path f =
     (if \<not> file_exists f then
        (False, [Printed (''Error: File '' @ [CHR 0x27] @ file_path @ [CHR 0x27] @ '' does not exist.'')])
      else if \<not> file_readable f then
        (False, [Printed (''Error: File '' @ [CHR 0x27] @ file_path @ [CHR 0x27] @ '' is not readable.'')])
      else (True, []))"

definition main_prog ::
  "'w fetcher \<Rightarrow> 'w \<Rightarrow> string \<Rightarrow> file_system \<Rightarrow> 'w raised + (nat \<times> event list \<times> 'w)" where
  \<comment> \<open>\<^verbatim>\<open>main\<close>: the exit code, the events, the next state of the world\<close>
  "main_prog fetch w ged_file f =
     (case validate_file ged_file f of
        (False, evs) \<Rightarrow> Inr (1, evs, w)
      | (True, evs) \<Rightarrow>
          (case process_gedcom_file fetch w f of
             Inl (e, evs', w') \<Rightarrow> Inl (e, evs @ evs', w')
           | Inr (st, evs', w') \<Rightarrow> Inr (0, evs @ evs', w')))"

section \<open>Properties of the identifier builder\<close>

lemma py_int_val:
  "s \<noteq> [] \<Longrightarrow> list_all is_digit s \<Longrightarrow> length s \<le> int_max_str_digits
   \<Longrightarrow> py_int s = Inr (digits_val s)"
  by (simp add: py_int_def)

lemma py_int_long:
  "int_max_str_digits < length s \<Longrightarrow> py_int s = Inl ValueError"
  by (simp add: py_int_def)

lemma date_match_SomeD:
  assumes "date_match b = Some (d, m, y)"
  shows "d \<noteq> [] \<and> list_all is_digit d \<and> m \<noteq> [] \<and> list_all is_word m
         \<and> y \<noteq> [] \<and> list_all is_digit y"
proof -
  have tw: "\<And>P xs. list_all P (takeWhile P xs)"
    by (simp add: list_all_iff) (meson set_takeWhileD)
  from assms show ?thesis
    by (auto simp: date_match_def Let_def tw split: if_splits)
qed

lemma strptime_b_month_raises: "strptime_b_month m = Inl e \<Longrightarrow> e = ValueError"
  by (auto simp: strptime_b_month_def split: option.splits)

lemma create_person_id_returns:
  assumes "\<forall>d m y. date_match b = Some (d, m, y) \<longrightarrow> length d \<le> int_max_str_digits"
  shows "\<exists>r. create_person_id name b = Inr r"
proof (cases "name_match name")
  case None
  then show ?thesis by (simp add: create_person_id_def)
next
  case (Some gs)
  obtain g1 g2 where gs: "gs = (g1, g2)" by (cases gs)
  show ?thesis
  proof (cases "date_match b")
    case None
    with Some gs show ?thesis by (simp add: create_person_id_def)
  next
    case (Some dmy)
    obtain d m y where dmy: "dmy = (d, m, y)" by (cases dmy)
    from Some dmy date_match_SomeD have "d \<noteq> []" "list_all is_digit d" by blast+
    moreover from Some dmy assms have "length d \<le> int_max_str_digits" by simp
    ultimately have "py_int d = Inr (digits_val d)" by (rule py_int_val)
    with Some dmy \<open>name_match name = Some gs\<close> gs show ?thesis
      by (cases "strptime_b_month m")
         (auto simp: create_person_id_def Let_def dest: strptime_b_month_raises)
  qed
qed

lemma create_person_id_raisesD:
  assumes "create_person_id name b = Inl e"
  shows "e = ValueError
         \<and> (\<exists>d m y. date_match b = Some (d, m, y) \<and> int_max_str_digits < length d)"
proof -
  from assms obtain gs where nm: "name_match name = Some gs"
    by (cases "name_match name") (auto simp: create_person_id_def)
  obtain g1 g2 where gs: "gs = (g1, g2)" by (cases gs)
  from assms nm gs obtain d m y where dm: "date_match b = Some (d, m, y)"
    by (cases "date_match b") (auto simp: create_person_id_def)
  from date_match_SomeD [OF dm] have dd: "d \<noteq> []" "list_all is_digit d" by simp_all
  have "int_max_str_digits < length d"
  proof (rule ccontr)
    assume "\<not> int_max_str_digits < length d"
    with dd have "py_int d = Inr (digits_val d)" by (simp add: py_int_val)
    with assms nm gs dm show False
      by (cases "strptime_b_month m")
         (auto simp: create_person_id_def Let_def dest: strptime_b_month_raises)
  qed
  moreover from this have "py_int d = Inl ValueError" by (rule py_int_long)
  with assms nm gs dm have "e = ValueError"
    by (simp add: create_person_id_def Let_def)
  ultimately show ?thesis using dm by blast
qed

lemma create_person_id_nonempty: "create_person_id name b = Inr (Some s) \<Longrightarrow> s \<noteq> []"
  by (auto simp: create_person_id_def Let_def
           split: option.splits sum.splits prod.splits if_splits)

text \<open>
  Within the limit of \<^verbatim>\<open>int()\<close> the function raises nothing and returns either
  \<^verbatim>\<open>None\<close> or a non-empty identifier; it returns \<^verbatim>\<open>None\<close> whenever the name line
  fails its pattern, whenever the date line fails its pattern, and, within the limit,
  whenever the month is not the abbreviation of a month.
\<close>

lemma create_person_id_within_limit:
  "(name_match name = None \<longrightarrow> create_person_id name birth_date = Inr None)
   \<and> (date_match birth_date = None \<longrightarrow> create_person_id name birth_date = Inr None)
   \<and> (\<forall>d m y. date_match birth_date = Some (d, m, y) \<and> length d \<le> int_max_str_digits \<longrightarrow>
         (create_person_id name birth_date = Inr None
            \<or> (\<exists>s. s \<noteq> [] \<and> create_person_id name birth_date = Inr (Some s)))
         \<and> (strptime_b_month m = Inl ValueError
              \<longrightarrow> create_person_id name birth_date = Inr None))"
proof (intro conjI allI impI)
  assume "name_match name = None"
  then show "create_person_id name birth_date = Inr None"
    by (simp add: create_person_id_def)
next
  assume "date_match birth_date = None"
  then show "create_person_id name birth_date = Inr None"
    by (simp add: create_person_id_def split: option.splits prod.splits)
next
  fix d m y
  assume h: "date_match birth_date = Some (d, m, y) \<and> length d \<le> int_max_str_digits"
  then have "\<forall>d m y. date_match birth_date = Some (d, m, y) \<longrightarrow> length d \<le> int_max_str_digits"
    by simp
  then obtain r where r: "create_person_id name birth_date = Inr r"
    using create_person_id_returns by blast
  show "create_person_id name birth_date = Inr None
      \<or> (\<exists>s. s \<noteq> [] \<and> create_person_id name birth_date = Inr (Some s))"
  proof (cases r)
    case None
    with r show ?thesis by simp
  next
    case (Some s)
    with r create_person_id_nonempty [of name birth_date s] show ?thesis by simp
  qed
next
  fix d m y
  assume h: "date_match birth_date = Some (d, m, y) \<and> length d \<le> int_max_str_digits"
    and mo: "strptime_b_month m = Inl ValueError"
  from h date_match_SomeD have "d \<noteq> []" "list_all is_digit d" by blast+
  with h have "py_int d = Inr (digits_val d)" by (simp add: py_int_val)
  with h mo show "create_person_id name birth_date = Inr None"
    by (simp add: create_person_id_def Let_def split: option.splits prod.splits)
qed

subsection \<open>Matching, splitting and formatting\<close>




lemma takeWhile_run:
  "list_all P xs \<Longrightarrow> \<not> P c \<Longrightarrow> takeWhile P (xs @ c # r) = xs \<and> dropWhile P (xs @ c # r) = c # r"
  by (induction xs) auto

lemma takeWhile_all: "list_all P xs \<Longrightarrow> takeWhile P xs = xs"
  by (induction xs) auto

lemma date_match_build:
  assumes "d \<noteq> []" "list_all is_digit d" "m \<noteq> []" "list_all is_word m"
    "y \<noteq> []" "list_all is_digit y"
  shows "date_match (''2 DATE '' @ d @ '' '' @ m @ '' '' @ y) = Some (d, m, y)"
proof -
  have sp: "\<not> is_digit CHR '' ''" "\<not> is_word CHR '' ''"
    by (simp_all add: is_digit_def is_word_def latin1_word_def)
  have 1: "takeWhile is_digit (d @ CHR '' '' # m @ CHR '' '' # y) = d"
       "dropWhile is_digit (d @ CHR '' '' # m @ CHR '' '' # y) = CHR '' '' # m @ CHR '' '' # y"
    using takeWhile_run [OF assms(2) sp(1)] by simp_all
  have 2: "takeWhile is_word (m @ CHR '' '' # y) = m"
       "dropWhile is_word (m @ CHR '' '' # y) = CHR '' '' # y"
    using takeWhile_run [OF assms(4) sp(2)] by simp_all
  have 3: "takeWhile is_digit y = y" using assms(6) by (rule takeWhile_all)
  show ?thesis
    using assms(1,3,5) by (simp add: date_match_def startswith_def Let_def 1 2 3)
qed

lemma index_of_SomeD: "index_of x ys = Some i \<Longrightarrow> i < length ys \<and> x \<in> set ys"
  by (induction ys arbitrary: i) (auto split: if_splits)

lemma lower_char_word:
  assumes "lower_char c \<in> set ''abcdefghijklmnopqrstuvwxyz''"
  shows "is_word c"
proof (cases "map_of (zip (''ABCDEFGHIJKLMNOPQRSTUVWXYZ'' @ latin1_upper)
                       (''abcdefghijklmnopqrstuvwxyz'' @ latin1_lower)) c")
  case None
  then have "lower_char c = c" by (simp add: lower_char_def)
  with assms have "c \<in> set ''abcdefghijklmnopqrstuvwxyz''" by simp
  then show ?thesis unfolding is_word_def by auto
next
  case (Some l)
  then have "(c, l) \<in> set (zip (''ABCDEFGHIJKLMNOPQRSTUVWXYZ'' @ latin1_upper)
                       (''abcdefghijklmnopqrstuvwxyz'' @ latin1_lower))"
    by (rule map_of_SomeD)
  moreover have "list_all (\<lambda>(u, l). l \<in> set ''abcdefghijklmnopqrstuvwxyz''
                    \<longrightarrow> u \<in> set ''ABCDEFGHIJKLMNOPQRSTUVWXYZ'')
      (zip (''ABCDEFGHIJKLMNOPQRSTUVWXYZ'' @ latin1_upper)
           (''abcdefghijklmnopqrstuvwxyz'' @ latin1_lower))"
    by code_simp
  moreover from Some have "lower_char c = l" by (simp add: lower_char_def)
  ultimately have "c \<in> set ''ABCDEFGHIJKLMNOPQRSTUVWXYZ''"
    using assms unfolding list_all_iff by fastforce
  then show ?thesis unfolding is_word_def by auto
qed

lemma strptime_b_monthD:
  assumes "strptime_b_month m = Inr k"
  shows "m \<noteq> [] \<and> list_all is_word m \<and> 1 \<le> k \<and> k \<le> 12"
proof -
  from assms obtain i where i: "index_of (py_lower m) month_abbr = Some i" and k: "k = Suc i"
    by (auto simp: strptime_b_month_def split: option.splits)
  from index_of_SomeD [OF i] have mem: "py_lower m \<in> set month_abbr" by simp
  from index_of_SomeD [OF i] have il: "i < 12" by (simp add: month_abbr_def)
  have "\<forall>a \<in> set month_abbr. a \<noteq> [] \<and> set a \<subseteq> set ''abcdefghijklmnopqrstuvwxyz''"
    by (simp add: month_abbr_def)
  with mem have ne: "py_lower m \<noteq> []" and sub: "set (py_lower m) \<subseteq> set ''abcdefghijklmnopqrstuvwxyz''"
    by blast+
  from ne have "m \<noteq> []" by (auto simp: py_lower_def)
  moreover from sub have "list_all is_word m"
    unfolding py_lower_def list_all_iff using lower_char_word by auto
  ultimately show ?thesis using k il by simp
qed



















lemma fmt_02d_one: "n < 10 \<Longrightarrow> fmt_02d n = [CHR ''0'', digit_char n]"
  by (simp add: fmt_02d_def)

lemma fmt_02d_two: "10 \<le> n \<Longrightarrow> n < 100 \<Longrightarrow> fmt_02d n = [digit_char (n div 10), digit_char n]"
proof -
  assume a: "10 \<le> n" "n < 100"
  then have "n div 10 < 10" by simp
  then have "str_nat (n div 10) = [digit_char (n div 10)]" by simp
  moreover from a have "str_nat n = str_nat (n div 10) @ [digit_char n]"
    by (subst str_nat.simps) simp
  ultimately show ?thesis using a by (simp add: fmt_02d_def)
qed

lemma length_fmt_02d: "2 \<le> length (fmt_02d n)"
proof (cases "n < 10")
  case True
  then show ?thesis by (simp add: fmt_02d_one)
next
  case False
  then have "str_nat n = str_nat (n div 10) @ [digit_char n]"
    by (subst str_nat.simps) simp
  moreover have "str_nat (n div 10) \<noteq> []"
    by (subst str_nat.simps) simp
  ultimately show ?thesis using False
    by (cases "str_nat (n div 10)") (simp_all add: fmt_02d_def del: str_nat.simps)
qed


lemma fmt_02d_below_100: "n < 100 \<Longrightarrow> fmt_02d n = [digit_char (n div 10), digit_char n]"
proof (cases "n < 10")
  case True
  then show ?thesis by (simp add: fmt_02d_one digit_char_def)
next
  case False
  assume "n < 100"
  with False show ?thesis by (simp add: fmt_02d_two)
qed






text \<open>
  Claim C8. The date part of the identifier is the year, a hyphen, the month in two
  digits, a hyphen and the day in at least two digits (exactly two below 100), each
  zero-padded. The day is the number its digits write, whatever the month: the witness
  is 31 February, whose identifier has \<^verbatim>\<open>-02-31\<close>. The day has at most 4300 digits:
  beyond that limit \<^verbatim>\<open>int()\<close> raises and no identifier is returned.
\<close>

theorem date_part_format:
  assumes nm: "name_match name = Some (g, s)"
    and day: "d \<noteq> []" "list_all is_digit d" "length d \<le> int_max_str_digits"
    and mon: "strptime_b_month mon = Inr month_num"
    and year: "y \<noteq> []" "list_all is_digit y"
  shows "create_person_id name (''2 DATE '' @ d @ '' '' @ mon @ '' '' @ y)
           = Inr (Some (y @ ''-'' @ fmt_02d month_num @ ''-'' @ fmt_02d (digits_val d) @ ''_''
                   @ name_part_of (py_strip g) (py_strip s)))
         \<and> fmt_02d month_num = [digit_char (month_num div 10), digit_char month_num]
         \<and> 2 \<le> length (fmt_02d (digits_val d))
         \<and> (digits_val d < 100 \<longrightarrow>
              fmt_02d (digits_val d) = [digit_char (digits_val d div 10), digit_char (digits_val d)])"
proof (intro conjI impI)
  from strptime_b_monthD [OF mon] have m: "mon \<noteq> []" "list_all is_word mon" "month_num \<le> 12"
    by simp_all
  have dm: "date_match (''2 DATE '' @ d @ '' '' @ mon @ '' '' @ y) = Some (d, mon, y)"
    using day(1,2) m(1,2) year by (rule date_match_build)
  show "create_person_id name (''2 DATE '' @ d @ '' '' @ mon @ '' '' @ y)
           = Inr (Some (y @ ''-'' @ fmt_02d month_num @ ''-'' @ fmt_02d (digits_val d) @ ''_''
                   @ name_part_of (py_strip g) (py_strip s)))"
    unfolding create_person_id_def
    by (simp only: nm dm py_int_val [OF day] mon Let_def option.case prod.case sum.case
          append_assoc)
  from m(3) have "month_num < 100" by simp
  then show "fmt_02d month_num = [digit_char (month_num div 10), digit_char month_num]"
    by (rule fmt_02d_below_100)
  show "2 \<le> length (fmt_02d (digits_val d))" by (rule length_fmt_02d)
next
  assume "digits_val d < 100"
  then show "fmt_02d (digits_val d) = [digit_char (digits_val d div 10), digit_char (digits_val d)]"
    by (rule fmt_02d_below_100)
qed

theorem date_part_format_witness:
  "create_person_id ''1 NAME John /Smith/'' ''2 DATE 31 Feb 1980''
     = Inr (Some ''1980-02-31_john_smith'')"
proof -
  have n: "name_match ''1 NAME John /Smith/'' = Some (''John'', ''Smith'')" by code_simp
  have m: "strptime_b_month ''Feb'' = Inr 2" by code_simp
  have d: "list_all is_digit ''31''" "list_all is_digit ''1980''" by (simp_all add: is_digit_def)
  have v: "fmt_02d 2 = ''02''" "fmt_02d (digits_val ''31'') = ''31''"
    "name_part_of (py_strip ''John'') (py_strip ''Smith'') = ''john_smith''"
    by code_simp+
  have l: "length ''31'' \<le> int_max_str_digits" by (simp add: int_max_str_digits_def)
  from date_part_format [of "''1 NAME John /Smith/''" "''John''" "''Smith''" "''31''" "''Feb''" 2 "''1980''",
      OF n _ d(1) l m _ d(2), THEN conjunct1]
  show ?thesis by (simp add: v)
qed

text \<open>
  Claim C2. The function raises for some input. Line 60 converts the day with
  \<^verbatim>\<open>int()\<close> outside the \<^verbatim>\<open>try\<close> of lines 65 to 68, and \<^verbatim>\<open>int()\<close> raises
  \<^verbatim>\<open>ValueError\<close> for a run of more than 4300 digits. For the name line
  \<^verbatim>\<open>1 NAME John /Smith/\<close> and the date line whose day is the digit 1 written 4301
  times, with the month Jan and the year 1980, \<open>create_person_id\<close> raises
  \<^verbatim>\<open>ValueError\<close>: it returns neither \<^verbatim>\<open>None\<close> nor an identifier.
\<close>

theorem create_person_id_raises_on_long_day:
  "create_person_id ''1 NAME John /Smith/''
       (''2 DATE '' @ replicate 4301 CHR ''1'' @ '' '' @ ''Jan'' @ '' '' @ ''1980'')
     = Inl ValueError"
proof -
  let ?d = "replicate 4301 CHR ''1''"
  have d: "?d \<noteq> []" "list_all is_digit ?d"
    by (simp_all add: list_all_iff is_digit_def)
  have w: "''Jan'' \<noteq> []" "list_all is_word ''Jan''" "''1980'' \<noteq> []" "list_all is_digit ''1980''"
    by (simp_all add: is_word_def is_digit_def)
  have dm: "date_match (''2 DATE '' @ ?d @ '' '' @ ''Jan'' @ '' '' @ ''1980'') = Some (?d, ''Jan'', ''1980'')"
    using d w by (rule date_match_build)
  have nm: "name_match ''1 NAME John /Smith/'' = Some (''John'', ''Smith'')" by code_simp
  have "int_max_str_digits < length ?d" by (simp add: int_max_str_digits_def)
  then have pi: "py_int ?d = Inl ValueError" by (rule py_int_long)
  show ?thesis
    unfolding create_person_id_def
    by (simp only: nm dm pi Let_def option.case prod.case sum.case)
qed


section \<open>Properties of the scanner\<close>

lemma attempts_append: "attempts (xs @ ys) = attempts xs @ attempts ys"
  by (induction xs rule: attempts.induct) auto

lemma startswith_iff: "startswith s p \<longleftrightarrow> (\<exists>r. s = p @ r)"
proof
  assume "startswith s p"
  then have "s = p @ drop (length p) s"
    unfolding startswith_def by (metis append_take_drop_id)
  then show "\<exists>r. s = p @ r" ..
next
  assume "\<exists>r. s = p @ r"
  then show "startswith s p" by (auto simp: startswith_def)
qed

lemma file_line_kind:
  assumes "startswith l ''2 FILE ''"
  shows "\<not> is_boundary l \<and> \<not> startswith l ''1 NAME '' \<and> \<not> startswith l ''2 DATE ''"
proof -
  from assms obtain r where "l = ''2 FILE '' @ r" using startswith_iff by blast
  then show ?thesis by (simp add: is_boundary_def startswith_def)
qed

lemma name_line_kind:
  assumes "startswith l ''1 NAME ''"
  shows "\<not> is_boundary l"
proof -
  from assms obtain r where "l = ''1 NAME '' @ r" using startswith_iff by blast
  then show ?thesis by (simp add: is_boundary_def startswith_def)
qed

lemma date_line_kind:
  assumes "startswith l ''2 DATE ''"
  shows "\<not> is_boundary l \<and> \<not> startswith l ''1 NAME ''"
proof -
  from assms obtain r where "l = ''2 DATE '' @ r" using startswith_iff by blast
  then show ?thesis by (simp add: is_boundary_def startswith_def)
qed

lemma download_photo_shape:
  "\<exists>ok evs w'. download_photo fetch w url filename = (ok, evs, w')
      \<and> attempts evs = [(url, filename)] \<and> w' = snd (fetch w url filename)
      \<and> ok = (fst (fetch w url filename) = None)"
  by (cases "fetch w url filename") (auto simp: download_photo_def split: option.splits)

lemma create_person_id_SomeD:
  assumes "create_person_id name b = Inr (Some pid)"
  shows "name \<noteq> [] \<and> b \<noteq> [] \<and> pid \<noteq> []"
proof -
  have "name_match [] = None" by (simp add: name_match_def startswith_def)
  then have 1: "create_person_id [] b = Inr None" by (simp add: create_person_id_def)
  have "date_match [] = None" by (simp add: date_match_def startswith_def)
  then have 2: "create_person_id name [] = Inr None"
    by (simp add: create_person_id_def split: option.splits prod.splits)
  from assms 1 2 create_person_id_nonempty [OF assms] show ?thesis by auto
qed

text \<open>What one \<^verbatim>\<open>2 FILE\<close> line does, without and with an identifier.\<close>

lemma process_line_file_skip:
  assumes "startswith (py_strip l) ''2 FILE ''"
    and "current_name st = None \<or> current_birth_date st = None
         \<or> (\<exists>name b. current_name st = Some name \<and> current_birth_date st = Some b
                \<and> create_person_id name b = Inr None)"
  shows "process_line fetch st w l = Inr (st, [], w)"
proof -
  note k = file_line_kind [OF assms(1)]
  show ?thesis
  proof (cases "current_name st")
    case None
    with k assms(1) show ?thesis by (simp add: process_line_def)
  next
    case (Some name)
    note nm = this
    show ?thesis
    proof (cases "current_birth_date st")
      case None
      with k nm assms(1) show ?thesis by (simp add: process_line_def)
    next
      case (Some b)
      with assms(2) nm have "create_person_id name b = Inr None" by simp
      with k nm Some assms(1) show ?thesis by (simp add: process_line_def)
    qed
  qed
qed

lemma process_line_file_raise:
  assumes "startswith (py_strip l) ''2 FILE ''"
    and "current_name st = Some name" "current_birth_date st = Some b"
    and "create_person_id name b = Inl e"
  shows "process_line fetch st w l = Inl (e, [], w)"
proof -
  note k = file_line_kind [OF assms(1)]
  have "name_match [] = None" by (simp add: name_match_def startswith_def)
  then have "create_person_id [] b = Inr None" by (simp add: create_person_id_def)
  with assms(4) have n: "name \<noteq> []" by auto
  have "date_match [] = None" by (simp add: date_match_def startswith_def)
  then have "create_person_id name [] = Inr None"
    by (simp add: create_person_id_def split: option.splits prod.splits)
  with assms(4) have b: "b \<noteq> []" by auto
  from k n b assms show ?thesis by (simp add: process_line_def)
qed

lemma process_line_file_ok:
  assumes "startswith (py_strip l) ''2 FILE ''"
    and "current_name st = Some name" "current_birth_date st = Some b"
    and "create_person_id name b = Inr (Some pid)"
  shows "\<exists>evs. process_line fetch st w l
           = Inr (st\<lparr>photo_count := photo_count st + 1\<rparr>, evs,
                  snd (fetch w (drop 7 (py_strip l)) (photo_filename pid (photo_count st + 1))))
         \<and> attempts evs = [(drop 7 (py_strip l), photo_filename pid (photo_count st + 1))]"
proof -
  let ?url = "drop 7 (py_strip l)"
  let ?fn = "photo_filename pid (photo_count st + 1)"
  note k = file_line_kind [OF assms(1)]
  note ne = create_person_id_SomeD [OF assms(4)]
  obtain ok evs w' where d: "download_photo fetch w ?url ?fn = (ok, evs, w')"
    and a: "attempts evs = [(?url, ?fn)]"
    and w': "w' = snd (fetch w ?url ?fn)"
    using download_photo_shape [of fetch w ?url ?fn] by blast
  have "process_line fetch st w l
      = Inr (st\<lparr>photo_count := photo_count st + 1\<rparr>,
             Printed (''Downloading '' @ ?url @ '' to '' @ ?fn) # evs, w')"
    using k ne assms d by (simp add: process_line_def Let_def)
  with a w' show ?thesis by simp
qed

lemma process_line_boundary:
  "is_boundary (py_strip l) \<Longrightarrow>
   process_line fetch st w l
     = Inr (st\<lparr>current_person := Some (py_strip l), current_name := None,
                current_birth_date := None, photo_count := 0\<rparr>, [], w)"
  by (simp add: process_line_def)

lemma process_line_name:
  "startswith (py_strip l) ''1 NAME '' \<Longrightarrow>
   process_line fetch st w l = Inr (st\<lparr>current_name := Some (py_strip l)\<rparr>, [], w)"
  using name_line_kind [of "py_strip l"] by (simp add: process_line_def)

lemma process_line_date:
  "startswith (py_strip l) ''2 DATE '' \<Longrightarrow>
   process_line fetch st w l = Inr (st\<lparr>current_birth_date := Some (py_strip l)\<rparr>, [], w)"
  using date_line_kind [of "py_strip l"] by (simp add: process_line_def)

lemma process_line_other:
  "\<not> is_boundary (py_strip l) \<Longrightarrow> \<not> startswith (py_strip l) ''1 NAME '' \<Longrightarrow>
   \<not> startswith (py_strip l) ''2 DATE '' \<Longrightarrow> \<not> startswith (py_strip l) ''2 FILE '' \<Longrightarrow>
   process_line fetch st w l = Inr (st, [], w)"
  by (simp add: process_line_def)

text \<open>
  A line that is processed without an exception in one environment is processed without
  an exception in every environment, with the same context and the same downloads
  attempted.
\<close>

lemma process_line_cases:
  assumes "process_line fetch st w l = Inr (st', evs, w')"
  shows "(is_boundary (py_strip l) \<and> evs = [] \<and> w' = w
            \<and> st' = st\<lparr>current_person := Some (py_strip l), current_name := None,
                        current_birth_date := None, photo_count := 0\<rparr>)
       \<or> (startswith (py_strip l) ''1 NAME '' \<and> evs = [] \<and> w' = w
            \<and> st' = st\<lparr>current_name := Some (py_strip l)\<rparr>)
       \<or> (startswith (py_strip l) ''2 DATE '' \<and> \<not> startswith (py_strip l) ''1 NAME ''
            \<and> evs = [] \<and> w' = w \<and> st' = st\<lparr>current_birth_date := Some (py_strip l)\<rparr>)
       \<or> (startswith (py_strip l) ''2 FILE '' \<and> \<not> is_boundary (py_strip l)
            \<and> \<not> startswith (py_strip l) ''1 NAME '' \<and> \<not> startswith (py_strip l) ''2 DATE ''
            \<and> ((st' = st \<and> evs = [] \<and> w' = w
                  \<and> (current_name st = None \<or> current_birth_date st = None
                       \<or> (\<exists>name b. current_name st = Some name \<and> current_birth_date st = Some b
                              \<and> create_person_id name b = Inr None)))
               \<or> (\<exists>name b pid. current_name st = Some name \<and> current_birth_date st = Some b
                      \<and> create_person_id name b = Inr (Some pid)
                      \<and> st' = st\<lparr>photo_count := photo_count st + 1\<rparr>
                      \<and> attempts evs = [(drop 7 (py_strip l), photo_filename pid (photo_count st + 1))])))
       \<or> (\<not> is_boundary (py_strip l) \<and> \<not> startswith (py_strip l) ''1 NAME ''
            \<and> \<not> startswith (py_strip l) ''2 DATE '' \<and> \<not> startswith (py_strip l) ''2 FILE ''
            \<and> st' = st \<and> evs = [] \<and> w' = w)"
proof -
  consider (b) "is_boundary (py_strip l)"
    | (n) "startswith (py_strip l) ''1 NAME ''"
    | (d) "startswith (py_strip l) ''2 DATE ''"
    | (f) "startswith (py_strip l) ''2 FILE ''"
    | (o) "\<not> is_boundary (py_strip l)" "\<not> startswith (py_strip l) ''1 NAME ''"
          "\<not> startswith (py_strip l) ''2 DATE ''" "\<not> startswith (py_strip l) ''2 FILE ''"
    by blast
  then show ?thesis
  proof cases
    case b
    with assms show ?thesis by (simp add: process_line_boundary)
  next
    case n
    with assms show ?thesis by (simp add: process_line_name)
  next
    case d
    with assms date_line_kind [OF d] show ?thesis by (simp add: process_line_date)
  next
    case o
    with assms show ?thesis by (simp add: process_line_other)
  next
    case f
    note k = file_line_kind [OF f]
    show ?thesis
    proof (cases "current_name st = None \<or> current_birth_date st = None")
      case True
      with f have "process_line fetch st w l = Inr (st, [], w)"
        by (intro process_line_file_skip) auto
      with assms have "st' = st \<and> evs = [] \<and> w' = w" by simp
      with f k True show ?thesis by blast
    next
      case False
      then obtain name b where
        h: "current_name st = Some name" "current_birth_date st = Some b" by auto
      show ?thesis
      proof (cases "create_person_id name b")
        case (Inl e)
        with f h have "process_line fetch st w l = Inl (e, [], w)"
          by (intro process_line_file_raise)
        with assms show ?thesis by simp
      next
        case (Inr r)
        show ?thesis
        proof (cases r)
          case None
          with Inr h have c: "\<exists>name b. current_name st = Some name \<and> current_birth_date st = Some b
                \<and> create_person_id name b = Inr None" by simp
          with f have "process_line fetch st w l = Inr (st, [], w)"
            by (intro process_line_file_skip) auto
          with assms have "st' = st \<and> evs = [] \<and> w' = w" by simp
          with f k c show ?thesis by blast
        next
          case (Some pid)
          with Inr have c: "create_person_id name b = Inr (Some pid)" by simp
          from process_line_file_ok [OF f h c, of fetch w] assms
          have "st' = st\<lparr>photo_count := photo_count st + 1\<rparr>
              \<and> attempts evs = [(drop 7 (py_strip l), photo_filename pid (photo_count st + 1))]"
            by auto
          with f k h c show ?thesis by blast
        qed
      qed
    qed
  qed
qed

lemma process_line_shape:
  assumes "process_line fetch st w l = Inr (st', evs, w')"
  shows "\<exists>evs2 w2'. process_line fetch2 st w2 l = Inr (st', evs2, w2')
            \<and> attempts evs2 = attempts evs"
proof -
  from process_line_cases [OF assms]
  consider (b) "is_boundary (py_strip l)" "evs = []"
      "st' = st\<lparr>current_person := Some (py_strip l), current_name := None,
                        current_birth_date := None, photo_count := 0\<rparr>"
    | (n) "startswith (py_strip l) ''1 NAME ''" "evs = []"
      "st' = st\<lparr>current_name := Some (py_strip l)\<rparr>"
    | (d) "startswith (py_strip l) ''2 DATE ''" "evs = []"
      "st' = st\<lparr>current_birth_date := Some (py_strip l)\<rparr>"
    | (s) "startswith (py_strip l) ''2 FILE ''" "st' = st" "evs = []"
      "current_name st = None \<or> current_birth_date st = None
         \<or> (\<exists>name b. current_name st = Some name \<and> current_birth_date st = Some b
                \<and> create_person_id name b = Inr None)"
    | (f) name b pid where "startswith (py_strip l) ''2 FILE ''"
      "current_name st = Some name" "current_birth_date st = Some b"
      "create_person_id name b = Inr (Some pid)"
      "st' = st\<lparr>photo_count := photo_count st + 1\<rparr>"
      "attempts evs = [(drop 7 (py_strip l), photo_filename pid (photo_count st + 1))]"
    | (o) "\<not> is_boundary (py_strip l)" "\<not> startswith (py_strip l) ''1 NAME ''"
          "\<not> startswith (py_strip l) ''2 DATE ''" "\<not> startswith (py_strip l) ''2 FILE ''"
          "st' = st" "evs = []"
    by blast
  then show ?thesis
  proof cases
    case b
    then show ?thesis by (simp add: process_line_boundary)
  next
    case n
    then show ?thesis by (simp add: process_line_name)
  next
    case d
    then show ?thesis by (simp add: process_line_date)
  next
    case o
    then show ?thesis by (simp add: process_line_other)
  next
    case s
    from s(1,4) have "process_line fetch2 st w2 l = Inr (st, [], w2)"
      by (rule process_line_file_skip)
    with s(2,3) show ?thesis by simp
  next
    case f
    from process_line_file_ok [OF f(1-4), of fetch2 w2] f(5,6) show ?thesis by auto
  qed
qed

lemma process_lines_shape:
  "process_lines fetch st w ls = Inr (st', evs, w') \<Longrightarrow>
   \<exists>evs2 w2'. process_lines fetch2 st w2 ls = Inr (st', evs2, w2')
      \<and> attempts evs2 = attempts evs"
proof (induction ls arbitrary: st w w2 evs)
  case Nil
  then show ?case by simp
next
  case (Cons l ls)
  from Cons.prems obtain sa ea wa eb where
    a: "process_line fetch st w l = Inr (sa, ea, wa)"
    and b: "process_lines fetch sa wa ls = Inr (st', eb, w')"
    and e: "evs = ea @ eb"
    by (auto split: sum.splits prod.splits)
  from process_line_shape [OF a, of fetch2 w2] obtain e1 v1 where
    p: "process_line fetch2 st w2 l = Inr (sa, e1, v1)" "attempts e1 = attempts ea" by blast
  from Cons.IH [OF b, of v1] obtain e2 v2 where
    q: "process_lines fetch2 sa v1 ls = Inr (st', e2, v2)" "attempts e2 = attempts eb" by blast
  from p q e show ?case by (simp add: attempts_append)
qed

lemma process_lines_append:
  "process_lines fetch st w xs = Inr (st1, evs1, w1) \<Longrightarrow>
   process_lines fetch st1 w1 ys = Inr (st2, evs2, w2) \<Longrightarrow>
   process_lines fetch st w (xs @ ys) = Inr (st2, evs1 @ evs2, w2)"
proof (induction xs arbitrary: st w evs1)
  case Nil
  then show ?case by simp
next
  case (Cons l xs)
  from Cons.prems(1) obtain sa ea wa sb eb wb where
    a: "process_line fetch st w l = Inr (sa, ea, wa)"
    and b: "process_lines fetch sa wa xs = Inr (sb, eb, wb)"
    and c: "st1 = sb" "evs1 = ea @ eb" "w1 = wb"
    by (auto split: sum.splits prod.splits)
  from Cons.IH [of sa wa eb] b c Cons.prems(2)
  have "process_lines fetch sa wa (xs @ ys) = Inr (st2, eb @ evs2, w2)" by simp
  with a c show ?case by simp
qed

lemma process_lines_raised:
  "process_lines fetch st w xs = Inl r \<Longrightarrow> process_lines fetch st w (xs @ ys) = Inl r"
proof (induction xs arbitrary: st w r)
  case Nil
  then show ?case by simp
next
  case (Cons l xs)
  show ?case
  proof (cases "process_line fetch st w l")
    case (Inl r')
    with Cons.prems show ?thesis by simp
  next
    case (Inr t)
    obtain sa ea wa where t: "t = (sa, ea, wa)" by (cases t)
    from Cons.prems Inr t obtain e eb wb where
      b: "process_lines fetch sa wa xs = Inl (e, eb, wb)" and r: "r = (e, ea @ eb, wb)"
      by (auto split: sum.splits prod.splits)
    from Cons.IH [OF b] have "process_lines fetch sa wa (xs @ ys) = Inl (e, eb, wb)" .
    with Inr t r show ?thesis by simp
  qed
qed

lemma process_lines_appendD:
  "process_lines fetch st w (xs @ ys) = Inr (st2, evs, w2) \<Longrightarrow>
   \<exists>st1 evs1 w1 evs2. process_lines fetch st w xs = Inr (st1, evs1, w1)
      \<and> process_lines fetch st1 w1 ys = Inr (st2, evs2, w2) \<and> evs = evs1 @ evs2"
proof (induction xs arbitrary: st w evs)
  case Nil
  then show ?case by simp
next
  case (Cons l xs)
  from Cons.prems obtain sa ea wa eb where
    a: "process_line fetch st w l = Inr (sa, ea, wa)"
    and b: "process_lines fetch sa wa (xs @ ys) = Inr (st2, eb, w2)"
    and e: "evs = ea @ eb"
    by (auto split: sum.splits prod.splits)
  from Cons.IH [OF b] obtain st1 evs1 w1 evs2 where
    c: "process_lines fetch sa wa xs = Inr (st1, evs1, w1)"
    and d: "process_lines fetch st1 w1 ys = Inr (st2, evs2, w2)" and f: "eb = evs1 @ evs2"
    by blast
  from a c have "process_lines fetch st w (l # xs) = Inr (st1, ea @ evs1, w1)" by simp
  with d e f show ?case by auto
qed

lemma process_line_keeps_no_name:
  assumes "process_line fetch st w l = Inr (st', evs, w')"
    and "\<not> startswith (py_strip l) ''1 NAME ''" and "current_name st = None"
  shows "current_name st' = None"
  using process_line_cases [OF assms(1)] assms(2,3) by auto

lemma process_line_keeps_no_date:
  assumes "process_line fetch st w l = Inr (st', evs, w')"
    and "\<not> startswith (py_strip l) ''2 DATE ''" and "current_birth_date st = None"
  shows "current_birth_date st' = None"
  using process_line_cases [OF assms(1)] assms(2,3) by auto

lemma process_lines_keep_no_name:
  "process_lines fetch st w ls = Inr (st', evs, w') \<Longrightarrow>
   \<forall>l\<in>set ls. \<not> startswith (py_strip l) ''1 NAME '' \<Longrightarrow> current_name st = None \<Longrightarrow>
   current_name st' = None"
proof (induction ls arbitrary: st w evs)
  case Nil
  then show ?case by simp
next
  case (Cons l ls)
  from Cons.prems(1) obtain sa ea wa eb where
    a: "process_line fetch st w l = Inr (sa, ea, wa)"
    and b: "process_lines fetch sa wa ls = Inr (st', eb, w')"
    by (auto split: sum.splits prod.splits)
  from process_line_keeps_no_name [OF a] Cons.prems(2,3) have "current_name sa = None" by simp
  with Cons.IH [OF b] Cons.prems(2) show ?case by simp
qed

lemma process_lines_keep_no_date:
  "process_lines fetch st w ls = Inr (st', evs, w') \<Longrightarrow>
   \<forall>l\<in>set ls. \<not> startswith (py_strip l) ''2 DATE '' \<Longrightarrow> current_birth_date st = None \<Longrightarrow>
   current_birth_date st' = None"
proof (induction ls arbitrary: st w evs)
  case Nil
  then show ?case by simp
next
  case (Cons l ls)
  from Cons.prems(1) obtain sa ea wa eb where
    a: "process_line fetch st w l = Inr (sa, ea, wa)"
    and b: "process_lines fetch sa wa ls = Inr (st', eb, w')"
    by (auto split: sum.splits prod.splits)
  from process_line_keeps_no_date [OF a] Cons.prems(2,3) have "current_birth_date sa = None" by simp
  with Cons.IH [OF b] Cons.prems(2) show ?case by simp
qed

lemma process_line_file_absent:
  assumes "startswith (py_strip f) ''2 FILE ''"
    and "current_name st = None \<or> current_birth_date st = None"
  shows "process_line fetch st w f = Inr (st, [], w)"
  using assms(1) by (rule process_line_file_skip) (use assms(2) in blast)

text \<open>
  Claim C4. A \<^verbatim>\<open>2 FILE\<close> line read while the name line or the birth-date line of the
  context is absent changes nothing: no event, no request to the environment, the same
  context. In particular, after a person boundary and lines among which there is no
  name line, or no date line, the whole run with the \<^verbatim>\<open>2 FILE\<close> line is the run
  without it.
\<close>

theorem photo_without_name_or_date_skipped:
  assumes fl: "startswith (py_strip f) ''2 FILE ''"
  shows "(current_name st = None \<or> current_birth_date st = None
            \<longrightarrow> process_line fetch st w f = Inr (st, [], w))
       \<and> (is_boundary (py_strip b)
            \<and> ((\<forall>l\<in>set seg. \<not> startswith (py_strip l) ''1 NAME '')
                 \<or> (\<forall>l\<in>set seg. \<not> startswith (py_strip l) ''2 DATE ''))
            \<longrightarrow> process_lines fetch st w (pre @ b # seg @ [f])
                  = process_lines fetch st w (pre @ b # seg))"
proof (intro conjI impI)
  assume "current_name st = None \<or> current_birth_date st = None"
  with fl show "process_line fetch st w f = Inr (st, [], w)"
    by (rule process_line_file_absent)
next
  assume h: "is_boundary (py_strip b)
            \<and> ((\<forall>l\<in>set seg. \<not> startswith (py_strip l) ''1 NAME '')
                 \<or> (\<forall>l\<in>set seg. \<not> startswith (py_strip l) ''2 DATE ''))"
  show "process_lines fetch st w (pre @ b # seg @ [f])
                  = process_lines fetch st w (pre @ b # seg)"
  proof (cases "process_lines fetch st w (pre @ b # seg)")
    case (Inl r)
    then have "process_lines fetch st w ((pre @ b # seg) @ [f]) = Inl r"
      by (rule process_lines_raised)
    with Inl show ?thesis by simp
  next
    case (Inr t)
    obtain s1 e1 w1 where t: "t = (s1, e1, w1)" by (cases t)
    with Inr have x: "process_lines fetch st w (pre @ b # seg) = Inr (s1, e1, w1)" by simp
    from process_lines_appendD [OF x] obtain s0 e0 w0 eb where
      bq: "process_lines fetch s0 w0 (b # seg) = Inr (s1, eb, w1)" by blast
    let ?sb = "s0\<lparr>current_person := Some (py_strip b), current_name := None,
                  current_birth_date := None, photo_count := 0\<rparr>"
    from h bq obtain eq where q: "process_lines fetch ?sb w0 seg = Inr (s1, eq, w1)"
      by (auto simp: process_line_boundary split: sum.splits prod.splits)
    have "current_name s1 = None \<or> current_birth_date s1 = None"
      using h process_lines_keep_no_name [OF q] process_lines_keep_no_date [OF q] by auto
    with fl have "process_line fetch s1 w1 f = Inr (s1, [], w1)"
      by (rule process_line_file_absent)
    then have "process_lines fetch s1 w1 [f] = Inr (s1, [], w1)" by simp
    with x have "process_lines fetch st w ((pre @ b # seg) @ [f]) = Inr (s1, e1 @ [], w1)"
      by (rule process_lines_append)
    with x show ?thesis by simp
  qed
qed

theorem photo_without_name_or_date_skipped_witness:
  "startswith (py_strip ''2 FILE http://example.com/a.jpg'') ''2 FILE ''
   \<and> is_boundary (py_strip ''0 @I1@ INDI'')
   \<and> filter (\<lambda>l. startswith (py_strip l) ''2 DATE '') [''1 NAME John /Smith/''] = []
   \<and> process_lines (\<lambda>w u p. (None, w)) initial_context ()
        [''0 @I1@ INDI'', ''1 NAME John /Smith/'', ''2 FILE http://example.com/a.jpg'']
     = process_lines (\<lambda>w u p. (None, w)) initial_context ()
        [''0 @I1@ INDI'', ''1 NAME John /Smith/'']"
proof -
  have a: "startswith (py_strip ''2 FILE http://example.com/a.jpg'') ''2 FILE ''" by code_simp
  have b: "is_boundary (py_strip ''0 @I1@ INDI'')" by code_simp
  have c: "filter (\<lambda>l. startswith (py_strip l) ''2 DATE '') [''1 NAME John /Smith/''] = []"
    by code_simp
  then have c': "\<forall>l\<in>set [''1 NAME John /Smith/'']. \<not> startswith (py_strip l) ''2 DATE ''"
    by (simp split: if_splits)
  note t = photo_without_name_or_date_skipped
    [where f = "''2 FILE http://example.com/a.jpg''" and b = "''0 @I1@ INDI''"
       and seg = "[''1 NAME John /Smith/'']" and pre = "[]" and st = initial_context
       and fetch = "\<lambda>w u p. (None, w)" and w = "()", OF a, THEN conjunct2]
  have "process_lines (\<lambda>w u p. (None, w)) initial_context ()
          ([] @ ''0 @I1@ INDI'' # [''1 NAME John /Smith/''] @ [''2 FILE http://example.com/a.jpg''])
        = process_lines (\<lambda>w u p. (None, w)) initial_context ()
          ([] @ ''0 @I1@ INDI'' # [''1 NAME John /Smith/''])"
    using t b c' by blast
  then have "process_lines (\<lambda>w u p. (None, w)) initial_context ()
        [''0 @I1@ INDI'', ''1 NAME John /Smith/'', ''2 FILE http://example.com/a.jpg'']
     = process_lines (\<lambda>w u p. (None, w)) initial_context ()
        [''0 @I1@ INDI'', ''1 NAME John /Smith/'']"
    by (simp only: append_Nil append_Cons)
  with a b c show ?thesis by (intro conjI)
qed

text \<open>
  Claim C10. On a \<^verbatim>\<open>2 FILE\<close> line the photo counter grows by one exactly when an
  identifier is derived from the stored name and date lines, and then one download is
  attempted; otherwise the counter and the events are unchanged. No other line makes
  the counter grow. The environment does not appear in the statement: the counter grows
  whether the download succeeds or fails.
\<close>

theorem photo_count_increments_on_identifier:
  assumes "process_line fetch st w l = Inr (st', evs, w')"
  shows "(startswith (py_strip l) ''2 FILE ''
            \<and> (\<exists>name b pid. current_name st = Some name \<and> current_birth_date st = Some b
                   \<and> create_person_id name b = Inr (Some pid))
          \<longrightarrow> photo_count st' = photo_count st + 1 \<and> length (attempts evs) = 1)
       \<and> (startswith (py_strip l) ''2 FILE ''
            \<and> \<not> (\<exists>name b pid. current_name st = Some name \<and> current_birth_date st = Some b
                   \<and> create_person_id name b = Inr (Some pid))
          \<longrightarrow> photo_count st' = photo_count st \<and> evs = [])
       \<and> (\<not> startswith (py_strip l) ''2 FILE ''
          \<longrightarrow> photo_count st' \<le> photo_count st \<and> evs = [])"
proof (intro conjI impI)
  note c = process_line_cases [OF assms]
  {
    assume h: "startswith (py_strip l) ''2 FILE ''
            \<and> (\<exists>name b pid. current_name st = Some name \<and> current_birth_date st = Some b
                   \<and> create_person_id name b = Inr (Some pid))"
    then have k: "\<not> is_boundary (py_strip l) \<and> \<not> startswith (py_strip l) ''1 NAME ''
        \<and> \<not> startswith (py_strip l) ''2 DATE ''"
      using file_line_kind by blast
    from c h k have "\<exists>pid. st' = st\<lparr>photo_count := photo_count st + 1\<rparr>
        \<and> attempts evs = [(drop 7 (py_strip l), photo_filename pid (photo_count st + 1))]"
      by (elim disjE conjE exE) auto
    then show "photo_count st' = photo_count st + 1" and "length (attempts evs) = 1" by auto
  }
  {
    assume h: "startswith (py_strip l) ''2 FILE ''
            \<and> \<not> (\<exists>name b pid. current_name st = Some name \<and> current_birth_date st = Some b
                   \<and> create_person_id name b = Inr (Some pid))"
    then have k: "\<not> is_boundary (py_strip l) \<and> \<not> startswith (py_strip l) ''1 NAME ''
        \<and> \<not> startswith (py_strip l) ''2 DATE ''"
      using file_line_kind by blast
    from c h k have "st' = st \<and> evs = []" by (elim disjE conjE exE) auto
    then show "photo_count st' = photo_count st" and "evs = []" by auto
  }
  {
    assume h: "\<not> startswith (py_strip l) ''2 FILE ''"
    with c have "(st' = st\<lparr>current_person := Some (py_strip l), current_name := None,
                        current_birth_date := None, photo_count := 0\<rparr>
          \<or> st' = st\<lparr>current_name := Some (py_strip l)\<rparr>
          \<or> st' = st\<lparr>current_birth_date := Some (py_strip l)\<rparr> \<or> st' = st) \<and> evs = []"
      by blast
    then show "photo_count st' \<le> photo_count st" and "evs = []" by auto
  }
qed

theorem photo_count_increments_on_identifier_witness:
  "process_line (\<lambda>w u p. (Some ''404 Client Error'', w))
     \<lparr>current_person = Some ''0 @I1@ INDI'', current_name = Some ''1 NAME John /Smith/'',
      current_birth_date = Some ''2 DATE 15 Jan 1980'', photo_count = 1\<rparr> ()
     ''2 FILE http://example.com/b.jpg''
   = Inr (\<lparr>current_person = Some ''0 @I1@ INDI'', current_name = Some ''1 NAME John /Smith/'',
           current_birth_date = Some ''2 DATE 15 Jan 1980'', photo_count = 2\<rparr>,
          [Printed ''Downloading http://example.com/b.jpg to photos/1980-01-15_john_smith_02.jpg'',
           Download ''http://example.com/b.jpg'' ''photos/1980-01-15_john_smith_02.jpg'' False,
           Printed ''Error downloading http://example.com/b.jpg: 404 Client Error''], ())
   \<and> startswith (py_strip ''2 FILE http://example.com/b.jpg'') ''2 FILE ''
   \<and> create_person_id ''1 NAME John /Smith/'' ''2 DATE 15 Jan 1980''
       = Inr (Some ''1980-01-15_john_smith'')
   \<and> photo_count \<lparr>current_person = Some ''0 @I1@ INDI'', current_name = Some ''1 NAME John /Smith/'',
           current_birth_date = Some ''2 DATE 15 Jan 1980'', photo_count = 2\<rparr>
       = photo_count \<lparr>current_person = Some ''0 @I1@ INDI'', current_name = Some ''1 NAME John /Smith/'',
      current_birth_date = Some ''2 DATE 15 Jan 1980'', photo_count = 1\<rparr> + 1"
proof -
  let ?st = "\<lparr>current_person = Some ''0 @I1@ INDI'', current_name = Some ''1 NAME John /Smith/'',
      current_birth_date = Some ''2 DATE 15 Jan 1980'', photo_count = 1\<rparr>"
  let ?st' = "\<lparr>current_person = Some ''0 @I1@ INDI'', current_name = Some ''1 NAME John /Smith/'',
      current_birth_date = Some ''2 DATE 15 Jan 1980'', photo_count = 2\<rparr>"
  have a: "process_line (\<lambda>w u p. (Some ''404 Client Error'', w)) ?st ()
     ''2 FILE http://example.com/b.jpg''
   = Inr (?st',
          [Printed ''Downloading http://example.com/b.jpg to photos/1980-01-15_john_smith_02.jpg'',
           Download ''http://example.com/b.jpg'' ''photos/1980-01-15_john_smith_02.jpg'' False,
           Printed ''Error downloading http://example.com/b.jpg: 404 Client Error''], ())"
    by code_simp
  have b: "startswith (py_strip ''2 FILE http://example.com/b.jpg'') ''2 FILE ''" by code_simp
  have c: "create_person_id ''1 NAME John /Smith/'' ''2 DATE 15 Jan 1980''
       = Inr (Some ''1980-01-15_john_smith'')" by code_simp
  have d: "\<exists>name b pid. current_name ?st = Some name \<and> current_birth_date ?st = Some b
                   \<and> create_person_id name b = Inr (Some pid)"
    using c by simp
  from photo_count_increments_on_identifier [OF a, THEN conjunct1] b d
  have "photo_count ?st' = photo_count ?st + 1" by blast
  with a b c show ?thesis by (intro conjI)
qed

text \<open>
  Claim C6. After any lines already processed, photos included, a \<^verbatim>\<open>1 NAME\<close> line
  replaces the stored name line and a \<^verbatim>\<open>2 DATE\<close> line replaces the stored date line,
  whatever was stored before; the events of the lines before are kept as they are. A
  \<^verbatim>\<open>2 FILE\<close> line that follows derives its identifier from the new line, and takes the
  next number of the person.
\<close>

theorem later_name_or_date_overwrites:
  assumes fl: "startswith (py_strip f) ''2 FILE ''"
    and run: "process_lines fetch st w ls = Inr (st1, evs1, w1)"
  shows "(startswith (py_strip x) ''1 NAME '' \<longrightarrow>
            process_lines fetch st w (ls @ [x])
              = Inr (st1\<lparr>current_name := Some (py_strip x)\<rparr>, evs1, w1))
       \<and> (startswith (py_strip x) ''2 DATE '' \<longrightarrow>
            process_lines fetch st w (ls @ [x])
              = Inr (st1\<lparr>current_birth_date := Some (py_strip x)\<rparr>, evs1, w1))
       \<and> (startswith (py_strip x) ''1 NAME '' \<and> current_birth_date st1 = Some bd
            \<and> create_person_id (py_strip x) bd = Inr (Some pid) \<longrightarrow>
            (\<exists>evs2 w2. process_lines fetch st w (ls @ [x, f])
                = Inr (st1\<lparr>current_name := Some (py_strip x),
                           photo_count := photo_count st1 + 1\<rparr>, evs1 @ evs2, w2)
              \<and> attempts evs2 = [(drop 7 (py_strip f), photo_filename pid (photo_count st1 + 1))]))
       \<and> (startswith (py_strip x) ''2 DATE '' \<and> current_name st1 = Some nm
            \<and> create_person_id nm (py_strip x) = Inr (Some pid) \<longrightarrow>
            (\<exists>evs2 w2. process_lines fetch st w (ls @ [x, f])
                = Inr (st1\<lparr>current_birth_date := Some (py_strip x),
                           photo_count := photo_count st1 + 1\<rparr>, evs1 @ evs2, w2)
              \<and> attempts evs2 = [(drop 7 (py_strip f), photo_filename pid (photo_count st1 + 1))]))"
proof (intro conjI impI)
  assume n: "startswith (py_strip x) ''1 NAME ''"
  then have "process_lines fetch st1 w1 [x] = Inr (st1\<lparr>current_name := Some (py_strip x)\<rparr>, [], w1)"
    by (simp add: process_line_name)
  with run have "process_lines fetch st w (ls @ [x])
      = Inr (st1\<lparr>current_name := Some (py_strip x)\<rparr>, evs1 @ [], w1)"
    by (rule process_lines_append)
  then show "process_lines fetch st w (ls @ [x])
      = Inr (st1\<lparr>current_name := Some (py_strip x)\<rparr>, evs1, w1)" by simp
next
  assume d: "startswith (py_strip x) ''2 DATE ''"
  then have "process_lines fetch st1 w1 [x]
      = Inr (st1\<lparr>current_birth_date := Some (py_strip x)\<rparr>, [], w1)"
    by (simp add: process_line_date)
  with run have "process_lines fetch st w (ls @ [x])
      = Inr (st1\<lparr>current_birth_date := Some (py_strip x)\<rparr>, evs1 @ [], w1)"
    by (rule process_lines_append)
  then show "process_lines fetch st w (ls @ [x])
      = Inr (st1\<lparr>current_birth_date := Some (py_strip x)\<rparr>, evs1, w1)" by simp
next
  assume h: "startswith (py_strip x) ''1 NAME '' \<and> current_birth_date st1 = Some bd
            \<and> create_person_id (py_strip x) bd = Inr (Some pid)"
  let ?sa = "st1\<lparr>current_name := Some (py_strip x)\<rparr>"
  from h have a: "process_line fetch st1 w1 x = Inr (?sa, [], w1)"
    by (simp add: process_line_name)
  from h have "current_name ?sa = Some (py_strip x)" "current_birth_date ?sa = Some bd"
    "create_person_id (py_strip x) bd = Inr (Some pid)" by simp_all
  from process_line_file_ok [OF fl this, of fetch w1] obtain evs2 w2 where
    b: "process_line fetch ?sa w1 f = Inr (?sa\<lparr>photo_count := photo_count ?sa + 1\<rparr>, evs2, w2)"
    and c: "attempts evs2 = [(drop 7 (py_strip f), photo_filename pid (photo_count ?sa + 1))]"
    by blast
  from a b have "process_lines fetch st1 w1 [x, f]
      = Inr (?sa\<lparr>photo_count := photo_count ?sa + 1\<rparr>, evs2, w2)" by simp
  with run have "process_lines fetch st w (ls @ [x, f])
      = Inr (?sa\<lparr>photo_count := photo_count ?sa + 1\<rparr>, evs1 @ evs2, w2)"
    by (rule process_lines_append)
  with c show "\<exists>evs2 w2. process_lines fetch st w (ls @ [x, f])
                = Inr (st1\<lparr>current_name := Some (py_strip x),
                           photo_count := photo_count st1 + 1\<rparr>, evs1 @ evs2, w2)
              \<and> attempts evs2 = [(drop 7 (py_strip f), photo_filename pid (photo_count st1 + 1))]"
    by auto
next
  assume h: "startswith (py_strip x) ''2 DATE '' \<and> current_name st1 = Some nm
            \<and> create_person_id nm (py_strip x) = Inr (Some pid)"
  let ?sa = "st1\<lparr>current_birth_date := Some (py_strip x)\<rparr>"
  from h have a: "process_line fetch st1 w1 x = Inr (?sa, [], w1)"
    by (simp add: process_line_date)
  from h have "current_name ?sa = Some nm" "current_birth_date ?sa = Some (py_strip x)"
    "create_person_id nm (py_strip x) = Inr (Some pid)" by simp_all
  from process_line_file_ok [OF fl this, of fetch w1] obtain evs2 w2 where
    b: "process_line fetch ?sa w1 f = Inr (?sa\<lparr>photo_count := photo_count ?sa + 1\<rparr>, evs2, w2)"
    and c: "attempts evs2 = [(drop 7 (py_strip f), photo_filename pid (photo_count ?sa + 1))]"
    by blast
  from a b have "process_lines fetch st1 w1 [x, f]
      = Inr (?sa\<lparr>photo_count := photo_count ?sa + 1\<rparr>, evs2, w2)" by simp
  with run have "process_lines fetch st w (ls @ [x, f])
      = Inr (?sa\<lparr>photo_count := photo_count ?sa + 1\<rparr>, evs1 @ evs2, w2)"
    by (rule process_lines_append)
  with c show "\<exists>evs2 w2. process_lines fetch st w (ls @ [x, f])
                = Inr (st1\<lparr>current_birth_date := Some (py_strip x),
                           photo_count := photo_count st1 + 1\<rparr>, evs1 @ evs2, w2)
              \<and> attempts evs2 = [(drop 7 (py_strip f), photo_filename pid (photo_count st1 + 1))]"
    by auto
qed

theorem later_name_or_date_overwrites_witness:
  "startswith (py_strip ''2 FILE http://example.com/b.jpg'') ''2 FILE ''
   \<and> startswith (py_strip ''1 NAME Jane /Doe/'') ''1 NAME ''
   \<and> process_lines (\<lambda>w u p. (None, w)) initial_context ()
        [''0 @I1@ INDI'', ''1 NAME John /Smith/'', ''2 DATE 15 Jan 1980'',
         ''2 FILE http://example.com/a.jpg'']
       = Inr (\<lparr>current_person = Some ''0 @I1@ INDI'', current_name = Some ''1 NAME John /Smith/'',
               current_birth_date = Some ''2 DATE 15 Jan 1980'', photo_count = 1\<rparr>,
              [Printed ''Downloading http://example.com/a.jpg to photos/1980-01-15_john_smith_01.jpg'',
               Download ''http://example.com/a.jpg'' ''photos/1980-01-15_john_smith_01.jpg'' True],
              ())
   \<and> (\<exists>evs2 w2. process_lines (\<lambda>w u p. (None, w)) initial_context ()
          ([''0 @I1@ INDI'', ''1 NAME John /Smith/'', ''2 DATE 15 Jan 1980'',
            ''2 FILE http://example.com/a.jpg'']
           @ [''1 NAME Jane /Doe/'', ''2 FILE http://example.com/b.jpg''])
        = Inr (\<lparr>current_person = Some ''0 @I1@ INDI'', current_name = Some ''1 NAME Jane /Doe/'',
               current_birth_date = Some ''2 DATE 15 Jan 1980'', photo_count = 2\<rparr>,
              [Printed ''Downloading http://example.com/a.jpg to photos/1980-01-15_john_smith_01.jpg'',
               Download ''http://example.com/a.jpg'' ''photos/1980-01-15_john_smith_01.jpg'' True]
              @ evs2, w2)
        \<and> attempts evs2 = [(''http://example.com/b.jpg'', ''photos/1980-01-15_jane_doe_02.jpg'')])"
proof -
  let ?f = "''2 FILE http://example.com/b.jpg''"
  let ?x = "''1 NAME Jane /Doe/''"
  let ?ls = "[''0 @I1@ INDI'', ''1 NAME John /Smith/'', ''2 DATE 15 Jan 1980'',
         ''2 FILE http://example.com/a.jpg'']"
  let ?st1 = "\<lparr>current_person = Some ''0 @I1@ INDI'', current_name = Some ''1 NAME John /Smith/'',
               current_birth_date = Some ''2 DATE 15 Jan 1980'', photo_count = 1\<rparr>"
  let ?evs1 = "[Printed ''Downloading http://example.com/a.jpg to photos/1980-01-15_john_smith_01.jpg'',
               Download ''http://example.com/a.jpg'' ''photos/1980-01-15_john_smith_01.jpg'' True]"
  have a: "startswith (py_strip ?f) ''2 FILE ''" by code_simp
  have n: "startswith (py_strip ?x) ''1 NAME ''" by code_simp
  have r: "process_lines (\<lambda>w u p. (None, w)) initial_context () ?ls = Inr (?st1, ?evs1, ())"
    by code_simp
  have bd: "current_birth_date ?st1 = Some ''2 DATE 15 Jan 1980''" by simp
  have c: "create_person_id (py_strip ?x) ''2 DATE 15 Jan 1980''
      = Inr (Some ''1980-01-15_jane_doe'')" by code_simp
  have v: "photo_filename ''1980-01-15_jane_doe'' (photo_count ?st1 + 1)
            = ''photos/1980-01-15_jane_doe_02.jpg''"
    "drop 7 (py_strip ?f) = ''http://example.com/b.jpg''"
    "?st1\<lparr>current_name := Some (py_strip ?x), photo_count := photo_count ?st1 + 1\<rparr>
      = \<lparr>current_person = Some ''0 @I1@ INDI'', current_name = Some ''1 NAME Jane /Doe/'',
               current_birth_date = Some ''2 DATE 15 Jan 1980'', photo_count = 2\<rparr>"
    by code_simp+
  from later_name_or_date_overwrites [OF a r, THEN conjunct2, THEN conjunct2, THEN conjunct1,
      of ?x "''2 DATE 15 Jan 1980''" "''1980-01-15_jane_doe''"] n bd c
  have "\<exists>evs2 w2. process_lines (\<lambda>w u p. (None, w)) initial_context () (?ls @ [?x, ?f])
                = Inr (?st1\<lparr>current_name := Some (py_strip ?x),
                           photo_count := photo_count ?st1 + 1\<rparr>, ?evs1 @ evs2, w2)
              \<and> attempts evs2 = [(drop 7 (py_strip ?f),
                    photo_filename ''1980-01-15_jane_doe'' (photo_count ?st1 + 1))]"
    by blast
  then have "\<exists>evs2 w2. process_lines (\<lambda>w u p. (None, w)) initial_context () (?ls @ [?x, ?f])
                = Inr (\<lparr>current_person = Some ''0 @I1@ INDI'', current_name = Some ''1 NAME Jane /Doe/'',
               current_birth_date = Some ''2 DATE 15 Jan 1980'', photo_count = 2\<rparr>, ?evs1 @ evs2, w2)
              \<and> attempts evs2 = [(''http://example.com/b.jpg'', ''photos/1980-01-15_jane_doe_02.jpg'')]"
    by (simp only: v)
  with a n r show ?thesis by (intro conjI)
qed

lemma process_gedcom_file_InrD:
  assumes "process_gedcom_file fetch w fs = Inr (st, evs, w')"
  shows "mkdir_error fs = None \<and> read_error fs = None
         \<and> process_lines fetch initial_context w (file_lines fs) = Inr (st, evs, w')"
  using assms
  by (auto simp: process_gedcom_file_def split: option.splits sum.splits prod.splits)

lemma process_gedcom_file_InrI:
  assumes "mkdir_error fs = None" "read_error fs = None"
    and "process_lines fetch initial_context w (file_lines fs) = Inr (st, evs, w')"
  shows "process_gedcom_file fetch w fs = Inr (st, evs, w')"
  using assms by (simp add: process_gedcom_file_def)

text \<open>
  Claim C5. When the request or the write raises, \<open>download_photo\<close> prints a line
  with the URL and the text of the exception and returns \<^verbatim>\<open>False\<close>. The scan goes on:
  a scan that returns in one environment returns in every environment, with the same
  final context and the same list of downloads attempted, so the lines after a failed
  download are processed as they are after a successful one.
\<close>

theorem download_failure_does_not_stop_scan:
  "(fetch w url filename = (Some e, w') \<longrightarrow>
      download_photo fetch w url filename
        = (False,
           [Download url filename False, Printed (''Error downloading '' @ url @ '': '' @ e)],
           w'))
   \<and> (process_gedcom_file fetch w fs = Inr (st, evs, w1) \<longrightarrow>
        (\<forall>(fetch2 :: 'v fetcher) w2. \<exists>evs2 w2'.
           process_gedcom_file fetch2 w2 fs = Inr (st, evs2, w2')
           \<and> attempts evs2 = attempts evs))"
proof (intro conjI impI allI)
  assume "fetch w url filename = (Some e, w')"
  then show "download_photo fetch w url filename
        = (False,
           [Download url filename False, Printed (''Error downloading '' @ url @ '': '' @ e)],
           w')"
    by (simp add: download_photo_def)
next
  fix fetch2 :: "'v fetcher" and w2
  assume "process_gedcom_file fetch w fs = Inr (st, evs, w1)"
  from process_gedcom_file_InrD [OF this] have
    m: "mkdir_error fs = None" and r: "read_error fs = None"
    and p: "process_lines fetch initial_context w (file_lines fs) = Inr (st, evs, w1)"
    by simp_all
  from process_lines_shape [OF p, of fetch2 w2] obtain evs2 w2' where
    q: "process_lines fetch2 initial_context w2 (file_lines fs) = Inr (st, evs2, w2')"
    and a: "attempts evs2 = attempts evs" by blast
  from m r q have "process_gedcom_file fetch2 w2 fs = Inr (st, evs2, w2')"
    by (rule process_gedcom_file_InrI)
  with a show "\<exists>evs2 w2'. process_gedcom_file fetch2 w2 fs = Inr (st, evs2, w2')
           \<and> attempts evs2 = attempts evs" by blast
qed

theorem download_failure_does_not_stop_scan_witness:
  "download_photo (\<lambda>w u p. (Some ''404 Client Error'', w)) ()
       ''http://example.com/a.jpg'' ''photos/1980-01-15_john_smith_01.jpg''
     = (False,
        [Download ''http://example.com/a.jpg'' ''photos/1980-01-15_john_smith_01.jpg'' False,
         Printed (''Error downloading '' @ ''http://example.com/a.jpg'' @ '': '' @ ''404 Client Error'')],
        ())
   \<and> process_gedcom_file (\<lambda>w u p. (Some ''404 Client Error'', w)) ()
        \<lparr>file_exists = True, file_readable = True, mkdir_error = None,
         file_lines = [''0 @I1@ INDI'', ''1 NAME John /Smith/'', ''2 DATE 15 Jan 1980'',
                       ''2 FILE http://example.com/a.jpg'', ''2 FILE http://example.com/b.jpg''],
         read_error = None\<rparr>
     = Inr (\<lparr>current_person = Some ''0 @I1@ INDI'', current_name = Some ''1 NAME John /Smith/'',
             current_birth_date = Some ''2 DATE 15 Jan 1980'', photo_count = 2\<rparr>,
            [Printed ''Downloading http://example.com/a.jpg to photos/1980-01-15_john_smith_01.jpg'',
             Download ''http://example.com/a.jpg'' ''photos/1980-01-15_john_smith_01.jpg'' False,
             Printed ''Error downloading http://example.com/a.jpg: 404 Client Error'',
             Printed ''Downloading http://example.com/b.jpg to photos/1980-01-15_john_smith_02.jpg'',
             Download ''http://example.com/b.jpg'' ''photos/1980-01-15_john_smith_02.jpg'' False,
             Printed ''Error downloading http://example.com/b.jpg: 404 Client Error''],
            ())
   \<and> (\<exists>evs2 w2'.
        process_gedcom_file (\<lambda>w u p. (None, w)) ()
          \<lparr>file_exists = True, file_readable = True, mkdir_error = None,
           file_lines = [''0 @I1@ INDI'', ''1 NAME John /Smith/'', ''2 DATE 15 Jan 1980'',
                         ''2 FILE http://example.com/a.jpg'', ''2 FILE http://example.com/b.jpg''],
           read_error = None\<rparr>
          = Inr (\<lparr>current_person = Some ''0 @I1@ INDI'', current_name = Some ''1 NAME John /Smith/'',
                  current_birth_date = Some ''2 DATE 15 Jan 1980'', photo_count = 2\<rparr>, evs2, w2')
        \<and> attempts evs2
            = [(''http://example.com/a.jpg'', ''photos/1980-01-15_john_smith_01.jpg''),
               (''http://example.com/b.jpg'', ''photos/1980-01-15_john_smith_02.jpg'')])"
proof -
  let ?fail = "\<lambda>(w::unit) (u::string) (p::string). (Some ''404 Client Error'', w)"
  let ?fs = "\<lparr>file_exists = True, file_readable = True, mkdir_error = None,
         file_lines = [''0 @I1@ INDI'', ''1 NAME John /Smith/'', ''2 DATE 15 Jan 1980'',
                       ''2 FILE http://example.com/a.jpg'', ''2 FILE http://example.com/b.jpg''],
         read_error = None\<rparr>"
  let ?st = "\<lparr>current_person = Some ''0 @I1@ INDI'', current_name = Some ''1 NAME John /Smith/'',
             current_birth_date = Some ''2 DATE 15 Jan 1980'', photo_count = 2\<rparr>"
  let ?evs = "[Printed ''Downloading http://example.com/a.jpg to photos/1980-01-15_john_smith_01.jpg'',
             Download ''http://example.com/a.jpg'' ''photos/1980-01-15_john_smith_01.jpg'' False,
             Printed ''Error downloading http://example.com/a.jpg: 404 Client Error'',
             Printed ''Downloading http://example.com/b.jpg to photos/1980-01-15_john_smith_02.jpg'',
             Download ''http://example.com/b.jpg'' ''photos/1980-01-15_john_smith_02.jpg'' False,
             Printed ''Error downloading http://example.com/b.jpg: 404 Client Error'']"
  have h: "?fail () ''http://example.com/a.jpg'' ''photos/1980-01-15_john_smith_01.jpg''
      = (Some ''404 Client Error'', ())" by simp
  note t = download_failure_does_not_stop_scan
      [where fetch = ?fail and w = "()"
         and url = "''http://example.com/a.jpg''"
         and filename = "''photos/1980-01-15_john_smith_01.jpg''"
         and e = "''404 Client Error''" and w' = "()" and fs = ?fs and st = ?st
         and evs = ?evs and ?w1.0 = "()" and ?'v = unit]
  from t [THEN conjunct1] h
  have a: "download_photo ?fail ()
       ''http://example.com/a.jpg'' ''photos/1980-01-15_john_smith_01.jpg''
     = (False,
        [Download ''http://example.com/a.jpg'' ''photos/1980-01-15_john_smith_01.jpg'' False,
         Printed (''Error downloading '' @ ''http://example.com/a.jpg'' @ '': '' @ ''404 Client Error'')],
        ())"
    by blast
  have b: "process_gedcom_file ?fail () ?fs = Inr (?st, ?evs, ())"
    by code_simp
  have v: "attempts ?evs
            = [(''http://example.com/a.jpg'', ''photos/1980-01-15_john_smith_01.jpg''),
               (''http://example.com/b.jpg'', ''photos/1980-01-15_john_smith_02.jpg'')]"
    by simp
  from t [THEN conjunct2] b
  have "\<exists>evs2 w2'. process_gedcom_file (\<lambda>w u p. (None, w)) () ?fs = Inr (?st, evs2, w2')
        \<and> attempts evs2 = attempts ?evs"
    by blast
  then have c: "\<exists>evs2 w2'. process_gedcom_file (\<lambda>w u p. (None, w)) () ?fs = Inr (?st, evs2, w2')
        \<and> attempts evs2
            = [(''http://example.com/a.jpg'', ''photos/1980-01-15_john_smith_01.jpg''),
               (''http://example.com/b.jpg'', ''photos/1980-01-15_john_smith_02.jpg'')]"
    by (simp only: v)
  from a b c show ?thesis by (intro conjI)
qed

text \<open>
  Claim C7. When the file does not exist, or exists and is not readable, \<open>main\<close>
  prints one line that names the file and returns 1; no line of the file is read, no
  download is attempted and the environment is unchanged. When the file exists and is
  readable and the scan completes, that is \<open>process_gedcom_file\<close> returns,
  \<open>main\<close> returns 0 with the events of the scan, whatever the outcome of the
  downloads.
\<close>

theorem main_exit_codes:
  "(\<not> file_exists f \<longrightarrow>
      main_prog fetch w ged_file f
        = Inr (1, [Printed (''Error: File '' @ [CHR 0x27] @ ged_file @ [CHR 0x27]
                     @ '' does not exist.'')], w))
   \<and> (file_exists f \<and> \<not> file_readable f \<longrightarrow>
      main_prog fetch w ged_file f
        = Inr (1, [Printed (''Error: File '' @ [CHR 0x27] @ ged_file @ [CHR 0x27]
                     @ '' is not readable.'')], w))
   \<and> (file_exists f \<and> file_readable f
        \<and> process_gedcom_file fetch w f = Inr (st, evs, w') \<longrightarrow>
      main_prog fetch w ged_file f = Inr (0, evs, w'))"
proof (intro conjI impI)
  assume "\<not> file_exists f"
  then show "main_prog fetch w ged_file f
        = Inr (1, [Printed (''Error: File '' @ [CHR 0x27] @ ged_file @ [CHR 0x27]
                     @ '' does not exist.'')], w)"
    by (simp add: main_prog_def validate_file_def)
next
  assume "file_exists f \<and> \<not> file_readable f"
  then show "main_prog fetch w ged_file f
        = Inr (1, [Printed (''Error: File '' @ [CHR 0x27] @ ged_file @ [CHR 0x27]
                     @ '' is not readable.'')], w)"
    by (simp add: main_prog_def validate_file_def)
next
  assume "file_exists f \<and> file_readable f
        \<and> process_gedcom_file fetch w f = Inr (st, evs, w')"
  then show "main_prog fetch w ged_file f = Inr (0, evs, w')"
    by (simp add: main_prog_def validate_file_def)
qed

theorem main_exit_codes_witness:
  "main_prog (\<lambda>w u p. (Some ''timeout'', w)) () ''family.ged''
       \<lparr>file_exists = False, file_readable = False, mkdir_error = None, file_lines = [],
        read_error = None\<rparr>
     = Inr (1, [Printed (''Error: File '' @ [CHR 0x27] @ ''family.ged'' @ [CHR 0x27]
                     @ '' does not exist.'')], ())
   \<and> main_prog (\<lambda>w u p. (Some ''timeout'', w)) () ''family.ged''
       \<lparr>file_exists = True, file_readable = False, mkdir_error = None,
        file_lines = [''1 NAME John /Smith/'', ''2 DATE 15 Jan 1980'', ''2 FILE http://example.com/a.jpg''],
        read_error = None\<rparr>
     = Inr (1, [Printed (''Error: File '' @ [CHR 0x27] @ ''family.ged'' @ [CHR 0x27]
                     @ '' is not readable.'')], ())
   \<and> process_gedcom_file (\<lambda>w u p. (Some ''timeout'', w)) ()
       \<lparr>file_exists = True, file_readable = True, mkdir_error = None,
        file_lines = [''1 NAME John /Smith/'', ''2 DATE 15 Jan 1980'', ''2 FILE http://example.com/a.jpg''],
        read_error = None\<rparr>
     = Inr (\<lparr>current_person = None, current_name = Some ''1 NAME John /Smith/'',
             current_birth_date = Some ''2 DATE 15 Jan 1980'', photo_count = 1\<rparr>,
            [Printed ''Downloading http://example.com/a.jpg to photos/1980-01-15_john_smith_01.jpg'',
             Download ''http://example.com/a.jpg'' ''photos/1980-01-15_john_smith_01.jpg'' False,
             Printed ''Error downloading http://example.com/a.jpg: timeout''], ())
   \<and> main_prog (\<lambda>w u p. (Some ''timeout'', w)) () ''family.ged''
       \<lparr>file_exists = True, file_readable = True, mkdir_error = None,
        file_lines = [''1 NAME John /Smith/'', ''2 DATE 15 Jan 1980'', ''2 FILE http://example.com/a.jpg''],
        read_error = None\<rparr>
     = Inr (0,
            [Printed ''Downloading http://example.com/a.jpg to photos/1980-01-15_john_smith_01.jpg'',
             Download ''http://example.com/a.jpg'' ''photos/1980-01-15_john_smith_01.jpg'' False,
             Printed ''Error downloading http://example.com/a.jpg: timeout''], ())"
proof -
  let ?fetch = "\<lambda>(w::unit) (u::string) (p::string). (Some ''timeout'', w)"
  let ?ls = "[''1 NAME John /Smith/'', ''2 DATE 15 Jan 1980'', ''2 FILE http://example.com/a.jpg'']"
  let ?st = "\<lparr>current_person = None, current_name = Some ''1 NAME John /Smith/'',
             current_birth_date = Some ''2 DATE 15 Jan 1980'', photo_count = 1\<rparr>"
  let ?evs = "[Printed ''Downloading http://example.com/a.jpg to photos/1980-01-15_john_smith_01.jpg'',
             Download ''http://example.com/a.jpg'' ''photos/1980-01-15_john_smith_01.jpg'' False,
             Printed ''Error downloading http://example.com/a.jpg: timeout'']"
  let ?ok = "\<lparr>file_exists = True, file_readable = True, mkdir_error = None,
        file_lines = ?ls, read_error = None\<rparr>"
  from main_exit_codes [where f = "\<lparr>file_exists = False, file_readable = False,
        mkdir_error = None, file_lines = [], read_error = None\<rparr>"
      and fetch = ?fetch and w = "()" and ged_file = "''family.ged''", THEN conjunct1]
  have a: "main_prog ?fetch () ''family.ged''
       \<lparr>file_exists = False, file_readable = False, mkdir_error = None, file_lines = [],
        read_error = None\<rparr>
     = Inr (1, [Printed (''Error: File '' @ [CHR 0x27] @ ''family.ged'' @ [CHR 0x27]
                     @ '' does not exist.'')], ())"
    by simp
  from main_exit_codes [where f = "\<lparr>file_exists = True, file_readable = False,
        mkdir_error = None, file_lines = ?ls, read_error = None\<rparr>"
      and fetch = ?fetch and w = "()" and ged_file = "''family.ged''",
      THEN conjunct2, THEN conjunct1]
  have b: "main_prog ?fetch () ''family.ged''
       \<lparr>file_exists = True, file_readable = False, mkdir_error = None, file_lines = ?ls,
        read_error = None\<rparr>
     = Inr (1, [Printed (''Error: File '' @ [CHR 0x27] @ ''family.ged'' @ [CHR 0x27]
                     @ '' is not readable.'')], ())"
    by simp
  have r: "process_gedcom_file ?fetch () ?ok = Inr (?st, ?evs, ())" by code_simp
  have e: "file_exists ?ok" "file_readable ?ok" by simp_all
  from main_exit_codes [where f = ?ok and fetch = ?fetch and w = "()"
      and ged_file = "''family.ged''" and st = ?st and evs = ?evs and w' = "()",
      THEN conjunct2, THEN conjunct2] e r
  have c: "main_prog ?fetch () ''family.ged'' ?ok = Inr (0, ?evs, ())"
    by blast
  from a b r c show ?thesis by (intro conjI)
qed

lemma upd_person_twice:
  "(st\<lparr>current_person := p\<rparr>)\<lparr>current_person := q\<rparr> = st\<lparr>current_person := q\<rparr>"
  by simp

lemma process_line_person:
  assumes "process_line fetch st w l = Inr (st', evs, w')"
  shows "\<exists>q. process_line fetch (st\<lparr>current_person := p\<rparr>) w l
            = Inr (st'\<lparr>current_person := q\<rparr>, evs, w')"
proof -
  consider (b) "is_boundary (py_strip l)"
    | (n) "startswith (py_strip l) ''1 NAME ''"
    | (d) "startswith (py_strip l) ''2 DATE ''"
    | (f) "startswith (py_strip l) ''2 FILE ''"
    | (o) "\<not> is_boundary (py_strip l)" "\<not> startswith (py_strip l) ''1 NAME ''"
          "\<not> startswith (py_strip l) ''2 DATE ''" "\<not> startswith (py_strip l) ''2 FILE ''"
    by blast
  then show ?thesis
  proof cases
    case b
    with assms have "st' = st\<lparr>current_person := Some (py_strip l), current_name := None,
                current_birth_date := None, photo_count := 0\<rparr>" "evs = []" "w' = w"
      by (simp_all add: process_line_boundary)
    moreover have "process_line fetch (st\<lparr>current_person := p\<rparr>) w l
       = Inr ((st\<lparr>current_person := p\<rparr>)\<lparr>current_person := Some (py_strip l), current_name := None,
                current_birth_date := None, photo_count := 0\<rparr>, [], w)"
      using b by (rule process_line_boundary)
    ultimately show ?thesis by (intro exI [of _ "Some (py_strip l)"]) simp
  next
    case n
    with assms have "st' = st\<lparr>current_name := Some (py_strip l)\<rparr>" "evs = []" "w' = w"
      by (simp_all add: process_line_name)
    moreover have "process_line fetch (st\<lparr>current_person := p\<rparr>) w l
       = Inr ((st\<lparr>current_person := p\<rparr>)\<lparr>current_name := Some (py_strip l)\<rparr>, [], w)"
      using n by (rule process_line_name)
    ultimately show ?thesis by (intro exI [of _ p]) simp
  next
    case d
    with assms have "st' = st\<lparr>current_birth_date := Some (py_strip l)\<rparr>" "evs = []" "w' = w"
      by (simp_all add: process_line_date)
    moreover have "process_line fetch (st\<lparr>current_person := p\<rparr>) w l
       = Inr ((st\<lparr>current_person := p\<rparr>)\<lparr>current_birth_date := Some (py_strip l)\<rparr>, [], w)"
      using d by (rule process_line_date)
    ultimately show ?thesis by (intro exI [of _ p]) simp
  next
    case o
    with assms have "st' = st" "evs = []" "w' = w"
      by (simp_all add: process_line_other)
    moreover have "process_line fetch (st\<lparr>current_person := p\<rparr>) w l
       = Inr (st\<lparr>current_person := p\<rparr>, [], w)"
      using o by (rule process_line_other)
    ultimately show ?thesis by (intro exI [of _ p]) simp
  next
    case f
    note k = file_line_kind [OF f]
    have "process_line fetch (st\<lparr>current_person := p\<rparr>) w l
        = map_sum id (\<lambda>(s, e, v). (s\<lparr>current_person := p\<rparr>, e, v)) (process_line fetch st w l)"
      using f k
      by (simp add: process_line_def Let_def
            split: option.splits sum.splits prod.splits)
    with assms show ?thesis by (intro exI [of _ p]) simp
  qed
qed

lemma process_lines_person:
  "process_lines fetch st w ls = Inr (st', evs, w') \<Longrightarrow>
   \<exists>q. process_lines fetch (st\<lparr>current_person := p\<rparr>) w ls
          = Inr (st'\<lparr>current_person := q\<rparr>, evs, w')"
proof (induction ls arbitrary: st w evs p)
  case Nil
  then show ?case by auto
next
  case (Cons l ls)
  from Cons.prems obtain sa ea wa eb where
    a: "process_line fetch st w l = Inr (sa, ea, wa)"
    and b: "process_lines fetch sa wa ls = Inr (st', eb, w')"
    and e: "evs = ea @ eb"
    by (auto split: sum.splits prod.splits)
  from process_line_person [OF a, of p] obtain q where
    a': "process_line fetch (st\<lparr>current_person := p\<rparr>) w l = Inr (sa\<lparr>current_person := q\<rparr>, ea, wa)"
    by blast
  from Cons.IH [OF b, of q] obtain q' where
    b': "process_lines fetch (sa\<lparr>current_person := q\<rparr>) wa ls = Inr (st'\<lparr>current_person := q'\<rparr>, eb, w')"
    by blast
  from a' b' e have "process_lines fetch (st\<lparr>current_person := p\<rparr>) w (l # ls)
      = Inr (st'\<lparr>current_person := q'\<rparr>, evs, w')" by simp
  then show ?case by blast
qed


text \<open>
  Claim C9. The lines read before any person boundary are processed in the initial
  context, which has no name, no date and the counter 0, as the context after a
  boundary has. For the input made of a name line, a date line and a photo line, with no
  boundary line at all, the identifier is derived and one download is attempted, in
  every environment. More generally, when the scan of a file returns, the scan of the
  same lines after a boundary line returns the same events and the same final context,
  the stored boundary line apart.
\<close>

theorem lines_before_any_boundary_processed:
  "filter (\<lambda>l. is_boundary (py_strip l))
      [''1 NAME John /Smith/'', ''2 DATE 15 Jan 1980'', ''2 FILE http://example.com/a.jpg''] = []
   \<and> (\<exists>st evs w'.
        process_gedcom_file fetch w
          \<lparr>file_exists = True, file_readable = True, mkdir_error = None,
           file_lines = [''1 NAME John /Smith/'', ''2 DATE 15 Jan 1980'',
                         ''2 FILE http://example.com/a.jpg''],
           read_error = None\<rparr>
          = Inr (st, evs, w')
        \<and> attempts evs = [(''http://example.com/a.jpg'', ''photos/1980-01-15_john_smith_01.jpg'')]
        \<and> current_person st = None \<and> photo_count st = 1)
   \<and> (process_gedcom_file fetch w fs = Inr (st1, evs1, w1) \<longrightarrow>
        (\<exists>q. process_gedcom_file fetch w (fs\<lparr>file_lines := ''0 @I1@ INDI'' # file_lines fs\<rparr>)
            = Inr (st1\<lparr>current_person := q\<rparr>, evs1, w1)))"
proof (intro conjI impI)
  let ?ls = "[''1 NAME John /Smith/'', ''2 DATE 15 Jan 1980'', ''2 FILE http://example.com/a.jpg'']"
  let ?st = "\<lparr>current_person = None, current_name = Some ''1 NAME John /Smith/'',
              current_birth_date = Some ''2 DATE 15 Jan 1980'', photo_count = 1\<rparr>"
  show "filter (\<lambda>l. is_boundary (py_strip l)) ?ls = []" by code_simp
  have e: "process_lines (\<lambda>w u p. (None, w)) initial_context () ?ls
      = Inr (?st,
             [Printed ''Downloading http://example.com/a.jpg to photos/1980-01-15_john_smith_01.jpg'',
              Download ''http://example.com/a.jpg'' ''photos/1980-01-15_john_smith_01.jpg'' True],
             ())"
    by code_simp
  from process_lines_shape [OF e, of fetch w] obtain evs2 w2' where
    r: "process_lines fetch initial_context w ?ls = Inr (?st, evs2, w2')"
    and a: "attempts evs2 = [(''http://example.com/a.jpg'', ''photos/1980-01-15_john_smith_01.jpg'')]"
    by auto
  have "process_gedcom_file fetch w
          \<lparr>file_exists = True, file_readable = True, mkdir_error = None,
           file_lines = ?ls, read_error = None\<rparr> = Inr (?st, evs2, w2')"
    using r by (intro process_gedcom_file_InrI) simp_all
  with a show "\<exists>st evs w'.
        process_gedcom_file fetch w
          \<lparr>file_exists = True, file_readable = True, mkdir_error = None,
           file_lines = ?ls, read_error = None\<rparr>
          = Inr (st, evs, w')
        \<and> attempts evs = [(''http://example.com/a.jpg'', ''photos/1980-01-15_john_smith_01.jpg'')]
        \<and> current_person st = None \<and> photo_count st = 1"
    by (intro exI [of _ ?st] exI [of _ evs2] exI [of _ w2']) simp
next
  assume "process_gedcom_file fetch w fs = Inr (st1, evs1, w1)"
  from process_gedcom_file_InrD [OF this] have
    m: "mkdir_error fs = None" and r: "read_error fs = None"
    and p: "process_lines fetch initial_context w (file_lines fs) = Inr (st1, evs1, w1)"
    by simp_all
  have b: "is_boundary (py_strip ''0 @I1@ INDI'')" by code_simp
  have i: "initial_context\<lparr>current_person := Some (py_strip ''0 @I1@ INDI''), current_name := None,
                current_birth_date := None, photo_count := 0\<rparr>
      = initial_context\<lparr>current_person := Some (py_strip ''0 @I1@ INDI'')\<rparr>"
    by (simp add: initial_context_def)
  from process_lines_person [OF p, of "Some (py_strip ''0 @I1@ INDI'')"] obtain q where
    q: "process_lines fetch (initial_context\<lparr>current_person := Some (py_strip ''0 @I1@ INDI'')\<rparr>) w
          (file_lines fs) = Inr (st1\<lparr>current_person := q\<rparr>, evs1, w1)" by blast
  have "process_lines fetch initial_context w (''0 @I1@ INDI'' # file_lines fs)
      = Inr (st1\<lparr>current_person := q\<rparr>, evs1, w1)"
    using process_line_boundary [OF b, of fetch initial_context w] q
    by (simp only: process_lines.simps i sum.case prod.case append_Nil)
  then have "process_gedcom_file fetch w (fs\<lparr>file_lines := ''0 @I1@ INDI'' # file_lines fs\<rparr>)
            = Inr (st1\<lparr>current_person := q\<rparr>, evs1, w1)"
    using m r by (intro process_gedcom_file_InrI) simp_all
  then show "\<exists>q. process_gedcom_file fetch w (fs\<lparr>file_lines := ''0 @I1@ INDI'' # file_lines fs\<rparr>)
            = Inr (st1\<lparr>current_person := q\<rparr>, evs1, w1)" by blast
qed

theorem lines_before_any_boundary_processed_witness:
  "process_gedcom_file (\<lambda>w u p. (None, w)) ()
      \<lparr>file_exists = True, file_readable = True, mkdir_error = None,
       file_lines = [''1 NAME John /Smith/'', ''2 DATE 15 Jan 1980'',
                     ''2 FILE http://example.com/a.jpg''],
       read_error = None\<rparr>
     = Inr (\<lparr>current_person = None, current_name = Some ''1 NAME John /Smith/'',
             current_birth_date = Some ''2 DATE 15 Jan 1980'', photo_count = 1\<rparr>,
            [Printed ''Downloading http://example.com/a.jpg to photos/1980-01-15_john_smith_01.jpg'',
             Download ''http://example.com/a.jpg'' ''photos/1980-01-15_john_smith_01.jpg'' True],
            ())
   \<and> (\<exists>q. process_gedcom_file (\<lambda>w u p. (None, w)) ()
      (\<lparr>file_exists = True, file_readable = True, mkdir_error = None,
        file_lines = [''1 NAME John /Smith/'', ''2 DATE 15 Jan 1980'',
                      ''2 FILE http://example.com/a.jpg''],
        read_error = None\<rparr>
       \<lparr>file_lines := ''0 @I1@ INDI'' #
          file_lines \<lparr>file_exists = True, file_readable = True, mkdir_error = None,
            file_lines = [''1 NAME John /Smith/'', ''2 DATE 15 Jan 1980'',
                          ''2 FILE http://example.com/a.jpg''],
            read_error = None\<rparr>\<rparr>)
     = Inr (\<lparr>current_person = None, current_name = Some ''1 NAME John /Smith/'',
             current_birth_date = Some ''2 DATE 15 Jan 1980'', photo_count = 1\<rparr>
              \<lparr>current_person := q\<rparr>,
            [Printed ''Downloading http://example.com/a.jpg to photos/1980-01-15_john_smith_01.jpg'',
             Download ''http://example.com/a.jpg'' ''photos/1980-01-15_john_smith_01.jpg'' True],
            ()))"
proof -
  let ?fs = "\<lparr>file_exists = True, file_readable = True, mkdir_error = None,
       file_lines = [''1 NAME John /Smith/'', ''2 DATE 15 Jan 1980'',
                     ''2 FILE http://example.com/a.jpg''],
       read_error = None\<rparr>"
  let ?st = "\<lparr>current_person = None, current_name = Some ''1 NAME John /Smith/'',
             current_birth_date = Some ''2 DATE 15 Jan 1980'', photo_count = 1\<rparr>"
  let ?evs = "[Printed ''Downloading http://example.com/a.jpg to photos/1980-01-15_john_smith_01.jpg'',
             Download ''http://example.com/a.jpg'' ''photos/1980-01-15_john_smith_01.jpg'' True]"
  have r: "process_gedcom_file (\<lambda>w u p. (None, w)) () ?fs = Inr (?st, ?evs, ())"
    by code_simp
  from lines_before_any_boundary_processed
      [where fetch = "\<lambda>w u p. (None, w)" and w = "()" and fs = ?fs and ?st1.0 = ?st
         and ?evs1.0 = ?evs and ?w1.0 = "()", THEN conjunct2, THEN conjunct2] r
  have c: "\<exists>q. process_gedcom_file (\<lambda>w u p. (None, w)) ()
      (?fs\<lparr>file_lines := ''0 @I1@ INDI'' # file_lines ?fs\<rparr>)
     = Inr (?st\<lparr>current_person := q\<rparr>, ?evs, ())"
    by blast
  from r c show ?thesis by (intro conjI)
qed

lemma process_line_count_step:
  assumes "process_line fetch st w l = Inr (st', evs, w')" and "\<not> is_boundary (py_strip l)"
  shows "(attempts evs = [] \<and> photo_count st' = photo_count st)
       \<or> (\<exists>pid name d url. create_person_id name d = Inr (Some pid)
             \<and> attempts evs = [(url, photo_filename pid (photo_count st + 1))]
             \<and> photo_count st' = photo_count st + 1)"
  using process_line_cases [OF assms(1)] assms(2)
  by (elim disjE conjE exE) auto

lemma segment_numbering:
  "process_lines fetch st w seg = Inr (st', evs, w') \<Longrightarrow>
   \<forall>l\<in>set seg. \<not> is_boundary (py_strip l) \<Longrightarrow>
   \<exists>ids. length (attempts evs) = length ids
       \<and> photo_count st' = photo_count st + length ids
       \<and> (\<forall>i<length ids. snd (attempts evs ! i) = photo_filename (ids ! i) (photo_count st + i + 1))
       \<and> (\<forall>pid\<in>set ids. \<exists>name d. create_person_id name d = Inr (Some pid))"
proof (induction seg arbitrary: st w evs)
  case Nil
  then have "evs = []" "st' = st" by simp_all
  then show ?case by (intro exI [of _ "[]"]) simp
next
  case (Cons l seg)
  from Cons.prems(1) obtain sa ea wa eb where
    a: "process_line fetch st w l = Inr (sa, ea, wa)"
    and b: "process_lines fetch sa wa seg = Inr (st', eb, w')"
    and e: "evs = ea @ eb"
    by (auto split: sum.splits prod.splits)
  from Cons.prems(2) have nb: "\<not> is_boundary (py_strip l)"
    and rest: "\<forall>l\<in>set seg. \<not> is_boundary (py_strip l)" by simp_all
  from Cons.IH [OF b rest] obtain ids where
    i1: "length (attempts eb) = length ids"
    and i2: "photo_count st' = photo_count sa + length ids"
    and i3: "\<forall>i<length ids. snd (attempts eb ! i) = photo_filename (ids ! i) (photo_count sa + i + 1)"
    and i4: "\<forall>pid\<in>set ids. \<exists>name d. create_person_id name d = Inr (Some pid)"
    by blast
  from process_line_count_step [OF a nb] show ?case
  proof
    assume h: "attempts ea = [] \<and> photo_count sa = photo_count st"
    with e have "attempts evs = attempts eb" by (simp add: attempts_append)
    with h i1 i2 i3 i4 show ?thesis by (intro exI [of _ ids]) simp
  next
    assume "\<exists>pid name d url. create_person_id name d = Inr (Some pid)
             \<and> attempts ea = [(url, photo_filename pid (photo_count st + 1))]
             \<and> photo_count sa = photo_count st + 1"
    then obtain pid name d url where
      c: "create_person_id name d = Inr (Some pid)"
      and at: "attempts ea = [(url, photo_filename pid (photo_count st + 1))]"
      and pc: "photo_count sa = photo_count st + 1" by blast
    from e at have ev: "attempts evs = (url, photo_filename pid (photo_count st + 1)) # attempts eb"
      by (simp add: attempts_append)
    have n: "\<forall>i<length (pid # ids).
        snd (attempts evs ! i) = photo_filename ((pid # ids) ! i) (photo_count st + i + 1)"
    proof (intro allI impI)
      fix i assume il: "i < length (pid # ids)"
      show "snd (attempts evs ! i) = photo_filename ((pid # ids) ! i) (photo_count st + i + 1)"
      proof (cases i)
        case 0
        with ev show ?thesis by simp
      next
        case (Suc j)
        with il have "j < length ids" by simp
        with i3 have "snd (attempts eb ! j) = photo_filename (ids ! j) (photo_count sa + j + 1)"
          by simp
        with Suc ev pc show ?thesis by simp
      qed
    qed
    have "length (attempts evs) = length (pid # ids)" using ev i1 by simp
    moreover have "photo_count st' = photo_count st + length (pid # ids)" using i2 pc by simp
    moreover have "\<forall>p\<in>set (pid # ids). \<exists>name d. create_person_id name d = Inr (Some p)"
      using c i4 by auto
    ultimately show ?thesis using n by (intro exI [of _ "pid # ids"]) blast
  qed
qed

text \<open>
  Claim C3. After a person boundary line, and until the next one, the downloads
  attempted are numbered from 1: in a run that returns, the photo number \<open>i + 1\<close> of
  the record, counting the photo lines for which an identifier is derived, has the
  target \<^verbatim>\<open>photos/<identifier>_<NN>.jpg\<close> under the working directory, \<^verbatim>\<open>NN\<close> being
  \<open>i + 1\<close> zero-padded to two digits, whatever the number reached by the person
  before; the counter at the end of the record is the number of its photos. In the
  witness the two photos of the first person have the targets
  \<^verbatim>\<open>photos/1980-01-15_john_smith_01.jpg\<close> and \<^verbatim>\<open>photos/1980-01-15_john_smith_02.jpg\<close>,
  and the photo of the second person is numbered 01 again.
\<close>

theorem photo_sequence_restarts_at_boundary:
  assumes bnd: "is_boundary (py_strip b)"
    and seg: "\<forall>l\<in>set seg. \<not> is_boundary (py_strip l)"
    and run: "process_lines fetch st w (pre @ b # seg) = Inr (st1, evs, w1)"
  shows "\<exists>st0 evs0 w0 evs1 ids.
      process_lines fetch st w pre = Inr (st0, evs0, w0)
    \<and> evs = evs0 @ evs1
    \<and> length (attempts evs1) = length ids \<and> photo_count st1 = length ids
    \<and> (\<forall>i<length ids.
          snd (attempts evs1 ! i) = photos_dir @ ''/'' @ ids ! i @ ''_'' @ fmt_02d (i + 1) @ ''.jpg'')
    \<and> (\<forall>pid\<in>set ids. \<exists>name d. create_person_id name d = Inr (Some pid))"
proof -
  from process_lines_appendD [OF run] obtain s0 e0 w0 eb where
    p: "process_lines fetch st w pre = Inr (s0, e0, w0)"
    and bq: "process_lines fetch s0 w0 (b # seg) = Inr (st1, eb, w1)"
    and e: "evs = e0 @ eb" by blast
  let ?sb = "s0\<lparr>current_person := Some (py_strip b), current_name := None,
                current_birth_date := None, photo_count := 0\<rparr>"
  from bnd bq have q: "process_lines fetch ?sb w0 seg = Inr (st1, eb, w1)"
    by (auto simp: process_line_boundary split: sum.splits prod.splits)
  from segment_numbering [OF q seg] obtain ids where
    i1: "length (attempts eb) = length ids"
    and i2: "photo_count st1 = photo_count ?sb + length ids"
    and i3: "\<forall>i<length ids. snd (attempts eb ! i) = photo_filename (ids ! i) (photo_count ?sb + i + 1)"
    and i4: "\<forall>pid\<in>set ids. \<exists>name d. create_person_id name d = Inr (Some pid)"
    by blast
  from i2 have j2: "photo_count st1 = length ids" by simp
  from i3 have j3: "\<forall>i<length ids.
      snd (attempts eb ! i) = photos_dir @ ''/'' @ ids ! i @ ''_'' @ fmt_02d (i + 1) @ ''.jpg''"
    by (simp add: photo_filename_def)
  from p e i1 j2 j3 i4 show ?thesis by blast
qed

theorem photo_sequence_restarts_at_boundary_witness:
  "is_boundary (py_strip ''0 @I2@ INDI'')
   \<and> filter (\<lambda>l. is_boundary (py_strip l))
        [''1 NAME Jane /Doe/'', ''2 DATE 3 Mar 1975'', ''2 FILE http://example.com/c.jpg''] = []
   \<and> process_lines (\<lambda>w u p. (None, w)) initial_context ()
          ([''0 @I1@ INDI'', ''1 NAME John /Smith/'', ''2 DATE 15 Jan 1980'',
          ''2 FILE http://example.com/a.jpg'', ''2 FILE http://example.com/b.jpg'']
           @ ''0 @I2@ INDI'' # [''1 NAME Jane /Doe/'', ''2 DATE 3 Mar 1975'', ''2 FILE http://example.com/c.jpg''])
       = Inr (\<lparr>current_person = Some ''0 @I2@ INDI'', current_name = Some ''1 NAME Jane /Doe/'',
               current_birth_date = Some ''2 DATE 3 Mar 1975'', photo_count = 1\<rparr>,
              [Printed ''Downloading http://example.com/a.jpg to photos/1980-01-15_john_smith_01.jpg'',
               Download ''http://example.com/a.jpg'' ''photos/1980-01-15_john_smith_01.jpg'' True,
               Printed ''Downloading http://example.com/b.jpg to photos/1980-01-15_john_smith_02.jpg'',
               Download ''http://example.com/b.jpg'' ''photos/1980-01-15_john_smith_02.jpg'' True,
               Printed ''Downloading http://example.com/c.jpg to photos/1975-03-03_jane_doe_01.jpg'',
               Download ''http://example.com/c.jpg'' ''photos/1975-03-03_jane_doe_01.jpg'' True],
              ())
   \<and> (\<exists>st0 evs0 w0 evs1 ids.
        process_lines (\<lambda>w u p. (None, w)) initial_context ()
          [''0 @I1@ INDI'', ''1 NAME John /Smith/'', ''2 DATE 15 Jan 1980'',
          ''2 FILE http://example.com/a.jpg'', ''2 FILE http://example.com/b.jpg''] = Inr (st0, evs0, w0)
      \<and> [Printed ''Downloading http://example.com/a.jpg to photos/1980-01-15_john_smith_01.jpg'',
               Download ''http://example.com/a.jpg'' ''photos/1980-01-15_john_smith_01.jpg'' True,
               Printed ''Downloading http://example.com/b.jpg to photos/1980-01-15_john_smith_02.jpg'',
               Download ''http://example.com/b.jpg'' ''photos/1980-01-15_john_smith_02.jpg'' True,
               Printed ''Downloading http://example.com/c.jpg to photos/1975-03-03_jane_doe_01.jpg'',
               Download ''http://example.com/c.jpg'' ''photos/1975-03-03_jane_doe_01.jpg'' True] = evs0 @ evs1
      \<and> length (attempts evs1) = length ids
      \<and> photo_count \<lparr>current_person = Some ''0 @I2@ INDI'', current_name = Some ''1 NAME Jane /Doe/'',
               current_birth_date = Some ''2 DATE 3 Mar 1975'', photo_count = 1\<rparr> = length ids
      \<and> (\<forall>i<length ids.
            snd (attempts evs1 ! i) = photos_dir @ ''/'' @ ids ! i @ ''_'' @ fmt_02d (i + 1) @ ''.jpg'')
      \<and> (\<forall>pid\<in>set ids. \<exists>name d. create_person_id name d = Inr (Some pid)))"
proof -
  have a: "is_boundary (py_strip ''0 @I2@ INDI'')" by code_simp
  have c: "filter (\<lambda>l. is_boundary (py_strip l))
        [''1 NAME Jane /Doe/'', ''2 DATE 3 Mar 1975'', ''2 FILE http://example.com/c.jpg''] = []" by code_simp
  then have c': "\<forall>l\<in>set [''1 NAME Jane /Doe/'', ''2 DATE 3 Mar 1975'', ''2 FILE http://example.com/c.jpg''].
      \<not> is_boundary (py_strip l)"
    by (simp split: if_splits)
  have e: "process_lines (\<lambda>w u p. (None, w)) initial_context ()
          ([''0 @I1@ INDI'', ''1 NAME John /Smith/'', ''2 DATE 15 Jan 1980'',
          ''2 FILE http://example.com/a.jpg'', ''2 FILE http://example.com/b.jpg'']
           @ ''0 @I2@ INDI'' # [''1 NAME Jane /Doe/'', ''2 DATE 3 Mar 1975'', ''2 FILE http://example.com/c.jpg''])
       = Inr (\<lparr>current_person = Some ''0 @I2@ INDI'', current_name = Some ''1 NAME Jane /Doe/'',
               current_birth_date = Some ''2 DATE 3 Mar 1975'', photo_count = 1\<rparr>,
              [Printed ''Downloading http://example.com/a.jpg to photos/1980-01-15_john_smith_01.jpg'',
               Download ''http://example.com/a.jpg'' ''photos/1980-01-15_john_smith_01.jpg'' True,
               Printed ''Downloading http://example.com/b.jpg to photos/1980-01-15_john_smith_02.jpg'',
               Download ''http://example.com/b.jpg'' ''photos/1980-01-15_john_smith_02.jpg'' True,
               Printed ''Downloading http://example.com/c.jpg to photos/1975-03-03_jane_doe_01.jpg'',
               Download ''http://example.com/c.jpg'' ''photos/1975-03-03_jane_doe_01.jpg'' True],
              ())"
    by code_simp
  have t: "\<exists>st0 evs0 w0 evs1 ids.
        process_lines (\<lambda>w u p. (None, w)) initial_context ()
          [''0 @I1@ INDI'', ''1 NAME John /Smith/'', ''2 DATE 15 Jan 1980'',
          ''2 FILE http://example.com/a.jpg'', ''2 FILE http://example.com/b.jpg''] = Inr (st0, evs0, w0)
      \<and> [Printed ''Downloading http://example.com/a.jpg to photos/1980-01-15_john_smith_01.jpg'',
               Download ''http://example.com/a.jpg'' ''photos/1980-01-15_john_smith_01.jpg'' True,
               Printed ''Downloading http://example.com/b.jpg to photos/1980-01-15_john_smith_02.jpg'',
               Download ''http://example.com/b.jpg'' ''photos/1980-01-15_john_smith_02.jpg'' True,
               Printed ''Downloading http://example.com/c.jpg to photos/1975-03-03_jane_doe_01.jpg'',
               Download ''http://example.com/c.jpg'' ''photos/1975-03-03_jane_doe_01.jpg'' True] = evs0 @ evs1
      \<and> length (attempts evs1) = length ids
      \<and> photo_count \<lparr>current_person = Some ''0 @I2@ INDI'', current_name = Some ''1 NAME Jane /Doe/'',
               current_birth_date = Some ''2 DATE 3 Mar 1975'', photo_count = 1\<rparr> = length ids
      \<and> (\<forall>i<length ids.
            snd (attempts evs1 ! i) = photos_dir @ ''/'' @ ids ! i @ ''_'' @ fmt_02d (i + 1) @ ''.jpg'')
      \<and> (\<forall>pid\<in>set ids. \<exists>name d. create_person_id name d = Inr (Some pid))"
    using a c' e by (rule photo_sequence_restarts_at_boundary)
  from a c e t show ?thesis by (intro conjI)
qed


end
